theory Spec2Isabelle
  imports Complex_Main "HOL-Library.Word"
begin

section \<open>JavaScript numbers and typed arrays\<close>

text \<open>
  Pixel coordinates, tile indices and behavior codes are modelled as mathematical
  integers (the values the game feeds the map are integral and far below \<open>2^53\<close>, where
  doubles are exact); time stamps and easing progress are reals.  The operator \<open>| 0\<close>
  is ToInt32: truncation toward zero followed by wrap-around into the signed 32-bit range;
  \<open>NaN\<close> and the infinities (a division by zero) become 0.
\<close>

definition toInt32 :: "int \<Rightarrow> int" where
  "toInt32 n = (n + 2 ^ 31) mod 2 ^ 32 - 2 ^ 31"

definition truncReal :: "real \<Rightarrow> int" where
  "truncReal r = (if 0 \<le> r then \<lfloor>r\<rfloor> else \<lceil>r\<rceil>)"

text \<open>\<open>a / b | 0\<close> on integral operands.\<close>

definition divToInt32 :: "int \<Rightarrow> int \<Rightarrow> int" where
  "divToInt32 a b = (if b = 0 then 0 else toInt32 (sgn a * sgn b * (\<bar>a\<bar> div \<bar>b\<bar>)))"


text \<open>\<open>options.f || d\<close>: an absent (\<open>undefined\<close>) or zero field takes the default.\<close>

definition orDefault :: "int option \<Rightarrow> int \<Rightarrow> int" where
  "orDefault v d = (case v of None \<Rightarrow> d | Some n \<Rightarrow> if n = 0 then d else n)"

text \<open>
  A \<open>Uint8Array\<close> is a window (offset, length) onto a shared \<open>ArrayBuffer\<close>.  Reading
  outside the window yields \<open>undefined\<close> (\<open>None\<close>); writing outside is ignored; a written
  number is reduced modulo 256.
\<close>

record view =
  byteOffset :: nat
  view_length :: nat

definition view_get :: "8 word list \<Rightarrow> view \<Rightarrow> int \<Rightarrow> int option" where
  "view_get buf v i =
     (if 0 \<le> i \<and> i < int (view_length v) \<and> byteOffset v + nat i < length buf
      then Some (uint (buf ! (byteOffset v + nat i))) else None)"

definition view_set :: "8 word list \<Rightarrow> view \<Rightarrow> int \<Rightarrow> int \<Rightarrow> 8 word list" where
  "view_set buf v i b =
     (if 0 \<le> i \<and> i < int (view_length v) \<and> byteOffset v + nat i < length buf
      then buf[byteOffset v + nat i := word_of_int b] else buf)"

section \<open>Data model\<close>

datatype error = RangeError | TypeError

type_synonym ref = nat

record hitbox =
  box_x :: int
  box_y :: int
  box_x2 :: int
  box_y2 :: int

text \<open>
  The fields of a placed object that the map reads or writes.  \<open>obj_hitBox\<close> is the value
  returned by the object's \<open>getHitBox()\<close>, a box relative to its position.
\<close>

record drawable =
  obj_x :: int
  obj_y :: int
  obj_vx :: int
  obj_hitBox :: hitbox
  obj_master :: bool
  obj_collideGroup :: int
  obj_movable :: bool
  obj_layer :: int

record trigger =
  triggered :: bool
  payload :: string

record spriteOptions =
  so_x :: int
  so_y :: int

record item =
  item_type :: string
  item_spriteOptions :: spriteOptions
  item_itemId :: "string option"

record window =
  displayed :: "bool option"
  items :: "item list"

record options =
  opt_tileWidth :: "int option"
  opt_tileHeight :: "int option"
  opt_width :: "int option"
  opt_height :: "int option"
  opt_viewportX :: "int option"
  opt_viewportY :: "int option"
  opt_viewportW :: "int option"
  opt_viewportH :: "int option"
  opt_startX :: "int option"
  opt_startY :: "int option"
  opt_triggers :: "int \<rightharpoonup> trigger"
  opt_windows :: "int \<rightharpoonup> window"
  opt_easing :: "real \<Rightarrow> real \<Rightarrow> real \<Rightarrow> real \<Rightarrow> real \<Rightarrow> real"
  opt_buffer :: "8 word list"

text \<open>
  The state of a \<open>Map\<close> instance.  Placed objects are references into \<open>heap\<close>, since the
  object list and the collision groups share them; \<open>nextRef\<close> is the next reference the
  object pool hands out.  \<open>eventItems\<close> is what has been registered with the map's event
  handler through \<open>addItem\<close>.  Fields only used for drawing are left out.
\<close>

record map_state =
  opts :: options
  tileWidth :: int
  tileHeight :: int
  width :: int
  height :: int
  viewportX :: int
  viewportY :: int
  viewportW :: int
  viewportH :: int
  triggers :: "int \<rightharpoonup> trigger"
  windows :: "int \<rightharpoonup> window"
  maxWinX :: int
  xMax :: int
  yMax :: int
  viewportTargetX :: int
  viewportTargetY :: int
  viewportSpeedX :: int
  viewportSpeedY :: int
  viewportStartX :: int
  viewportStartY :: int
  viewportLimitX :: int
  viewportCenterX :: int
  viewportLimitY :: int
  viewportCenterY :: int
  objects :: "ref list"
  friendBullets :: "ref list"
  enemies :: "ref list"
  platforms :: "ref list"
  numCols :: int
  numRows :: int
  buffer :: "8 word list"
  map_plane :: view
  tileBehaviors :: view
  moving :: bool
  easing :: "real \<Rightarrow> real \<Rightarrow> real \<Rightarrow> real \<Rightarrow> real \<Rightarrow> real"
  startMoveTime :: real
  duration :: real
  masterObject :: "ref option"
  startX :: int
  startY :: int
  isDirty :: bool
  heap :: "ref \<Rightarrow> drawable"
  nextRef :: ref
  eventItems :: "(string \<times> ref) list"

section \<open>Construction\<close>

text \<open>
  \<open>setBuffer\<close>: \<open>new Uint8Array(buffer, 0, size)\<close> and \<open>new Uint8Array(buffer, size)\<close>
  throw a \<open>RangeError\<close> when the window does not fit; the second view runs to the end of
  the buffer.
\<close>

definition setBuffer :: "8 word list \<Rightarrow> map_state \<Rightarrow> error + map_state" where
  "setBuffer buf m =
     (let size = numCols m * numRows m in
      if size < 0 \<or> int (length buf) < size then Inl RangeError
      else Inr (m\<lparr>map_plane := \<lparr>byteOffset = 0, view_length = nat size\<rparr>,
                  tileBehaviors := \<lparr>byteOffset = nat size, view_length = length buf - nat size\<rparr>,
                  buffer := buf\<rparr>))"

definition defaultObject :: drawable where
  "defaultObject = \<lparr>obj_x = 0, obj_y = 0, obj_vx = 0,
     obj_hitBox = \<lparr>box_x = 0, box_y = 0, box_x2 = 0, box_y2 = 0\<rparr>,
     obj_master = False, obj_collideGroup = 0, obj_movable = False, obj_layer = 0\<rparr>"

definition construct :: "options \<Rightarrow> error + map_state" where
  "construct opt =
     (let tw = orDefault (opt_tileWidth opt) 64;
          th = orDefault (opt_tileHeight opt) 32;
          w = orDefault (opt_width opt) 1024;
          h = orDefault (opt_height opt) 1024;
          vw = orDefault (opt_viewportW opt) w;
          vh = orDefault (opt_viewportH opt) h
      in setBuffer (opt_buffer opt)
        \<lparr>opts = opt, tileWidth = tw, tileHeight = th, width = w, height = h,
         viewportX = orDefault (opt_viewportX opt) 0,
         viewportY = orDefault (opt_viewportY opt) 0,
         viewportW = vw, viewportH = vh,
         triggers = opt_triggers opt, windows = opt_windows opt,
         maxWinX = divToInt32 w vw,
         xMax = w - vw, yMax = h - vh,
         viewportTargetX = 0, viewportTargetY = 0,
         viewportSpeedX = 0, viewportSpeedY = 0,
         viewportStartX = 0, viewportStartY = 0,
         viewportLimitX = 230, viewportCenterX = 307,
         viewportLimitY = 154, viewportCenterY = 230,
         objects = [], friendBullets = [], enemies = [], platforms = [],
         numCols = divToInt32 w tw, numRows = divToInt32 h th,
         buffer = [], map_plane = \<lparr>byteOffset = 0, view_length = 0\<rparr>,
         tileBehaviors = \<lparr>byteOffset = 0, view_length = 0\<rparr>,
         moving = False, easing = opt_easing opt,
         startMoveTime = 0, duration = 800,
         masterObject = None,
         startX = orDefault (opt_startX opt) 0,
         startY = orDefault (opt_startY opt) 0,
         isDirty = True,
         heap = (\<lambda>_. defaultObject), nextRef = 0, eventItems = []\<rparr>)"

section \<open>Tile grid\<close>

definition getTileIndexFromPixel :: "map_state \<Rightarrow> int \<Rightarrow> int \<Rightarrow> int \<times> int" where
  "getTileIndexFromPixel m x y = (divToInt32 x (tileWidth m), divToInt32 y (tileHeight m))"

definition getTileBehaviorAtIndex :: "map_state \<Rightarrow> int \<Rightarrow> int \<Rightarrow> int option" where
  "getTileBehaviorAtIndex m col row = view_get (buffer m) (tileBehaviors m) (numCols m * row + col)"

definition getTileNumAtIndex :: "map_state \<Rightarrow> int \<Rightarrow> int \<Rightarrow> int option" where
  "getTileNumAtIndex m col row = view_get (buffer m) (map_plane m) (numCols m * row + col)"

text \<open>
  \<open>updateTile(col, row, tileNum = -1, behavior = -1)\<close>: an omitted argument is -1.
\<close>

definition updateTile :: "int \<Rightarrow> int \<Rightarrow> int \<Rightarrow> int \<Rightarrow> map_state \<Rightarrow> map_state" where
  "updateTile col row tileNum behavior m =
     (let pos = row * numCols m + col;
          m1 = (if tileNum > -1
                then m\<lparr>buffer := view_set (buffer m) (map_plane m) pos tileNum, isDirty := True\<rparr>
                else m)
      in if behavior > -1
         then m1\<lparr>isDirty := True,
                 buffer := view_set (buffer m1) (tileBehaviors m1) pos behavior\<rparr>
         else m1)"

text \<open>
  \<open>fallTest\<close> compares with \<open>Tile.TYPE.WALL\<close>, a constant of the tile module; it is the
  parameter \<open>wall\<close> here.
\<close>

definition fallTest :: "int \<Rightarrow> map_state \<Rightarrow> int \<Rightarrow> int \<Rightarrow> bool" where
  "fallTest wall m x y =
     (let pos = getTileIndexFromPixel m x y
      in view_get (buffer m) (tileBehaviors m) (fst pos + snd pos * numCols m) = Some wall)"

record hit =
  hit_x :: int
  hit_y :: int
  hit_tile_x :: int
  hit_tile_y :: int

text \<open>
  \<open>hitObjectTest\<close>: the outer loop runs over columns \<open>i\<close>, the inner one over rows \<open>j\<close>;
  the first matching cell is returned, \<open>None\<close> stands for the result \<open>false\<close>.
\<close>

function hitObjectTest_rows :: "map_state \<Rightarrow> int \<Rightarrow> int \<Rightarrow> int \<Rightarrow> int \<Rightarrow> hit option" where
  "hitObjectTest_rows m types i j max2 =
     (if j \<le> max2 then
        (if view_get (buffer m) (tileBehaviors m) (j * numCols m + i) = Some types
         then Some \<lparr>hit_x = i, hit_y = j,
                    hit_tile_x = i * tileWidth m, hit_tile_y = j * tileHeight m\<rparr>
         else hitObjectTest_rows m types i (j + 1) max2)
      else None)"
  by pat_completeness auto
termination
  by (relation "measure (\<lambda>(m, types, i, j, max2). nat (max2 + 1 - j))") auto

function hitObjectTest_cols :: "map_state \<Rightarrow> int \<Rightarrow> int \<Rightarrow> int \<Rightarrow> int \<Rightarrow> int \<Rightarrow> hit option" where
  "hitObjectTest_cols m types i max1 j0 max2 =
     (if i \<le> max1 then
        (case hitObjectTest_rows m types i j0 max2 of
           Some h \<Rightarrow> Some h
         | None \<Rightarrow> hitObjectTest_cols m types (i + 1) max1 j0 max2)
      else None)"
  by pat_completeness auto
termination
  by (relation "measure (\<lambda>(m, types, i, max1, j0, max2). nat (max1 + 1 - i))") auto

definition hitObjectTest :: "map_state \<Rightarrow> int \<Rightarrow> int \<Rightarrow> int \<Rightarrow> int \<Rightarrow> int \<Rightarrow> hit option" where
  "hitObjectTest m x y x2 y2 types =
     (let pos1 = getTileIndexFromPixel m x y;
          pos2 = getTileIndexFromPixel m x2 y;
          pos3 = getTileIndexFromPixel m x y2
      in hitObjectTest_cols m types (fst pos1) (fst pos2) (snd pos1) (snd pos3))"

section \<open>Viewport and scroll controller\<close>

definition setViewPort :: "int \<Rightarrow> int \<Rightarrow> int \<Rightarrow> int \<Rightarrow> map_state \<Rightarrow> map_state" where
  "setViewPort x y w h m = m\<lparr>viewportX := x, viewportY := y, viewportW := w, viewportH := h\<rparr>"

text \<open>
  \<open>moveTo\<close>: \<open>now\<close> is the value of \<open>new Date().getTime()\<close>.  The call of the master's
  \<open>savePosition()\<close> only touches fields of the object the map never reads.
\<close>

definition moveTo :: "real \<Rightarrow> int \<Rightarrow> int \<Rightarrow> map_state \<Rightarrow> map_state" where
  "moveTo now x y m =
     (let targetX = (if x < - xMax m then - xMax m else x);
          targetY = (if y < - yMax m then - yMax m else y)
      in if \<not> moving m \<and> (viewportX m \<noteq> targetX \<or> viewportY m \<noteq> targetY) then
           m\<lparr>viewportTargetX := (if targetX > 0 then 0 else targetX),
             viewportTargetY := (if targetY > 0 then 0 else targetY),
             startMoveTime := now,
             viewportSpeedX := toInt32 (targetX - viewportX m),
             viewportSpeedY := toInt32 (targetY - viewportY m),
             viewportStartX := viewportX m,
             viewportStartY := viewportY m,
             moving := True\<rparr>
         else m)"

text \<open>\<open>checkMasterPosition\<close>; the source issues the same \<open>moveTo\<close> twice.\<close>

definition checkMasterPosition :: "real \<Rightarrow> map_state \<Rightarrow> map_state" where
  "checkMasterPosition now m =
     (case masterObject m of
        None \<Rightarrow> m
      | Some r \<Rightarrow>
          if moving m then m
          else
            (let mo = heap m r;
                 destX = (if viewportX m \<noteq> 0 \<and> obj_x mo + viewportX m \<le> viewportLimitX m
                          then Some (viewportX m + viewportCenterX m)
                          else if (- viewportX m + viewportW m) - obj_x mo \<le> viewportLimitX m
                          then Some (viewportX m - viewportCenterX m)
                          else None);
                 destY = (if viewportY m \<noteq> 0 \<and> obj_y mo + viewportY m \<le> viewportLimitY m
                          then Some (viewportY m + viewportCenterY m)
                          else if (- viewportY m + viewportH m) - obj_y mo \<le> viewportLimitY m
                          then Some (viewportY m - viewportCenterY m)
                          else None);
                 m1 = (if destX \<noteq> None \<or> destY \<noteq> None
                       then moveTo now (case destX of Some d \<Rightarrow> d | None \<Rightarrow> viewportX m)
                                       (case destY of Some d \<Rightarrow> d | None \<Rightarrow> viewportY m) m
                       else m)
             in if destX \<noteq> None \<or> destY \<noteq> None
                then moveTo now (case destX of Some d \<Rightarrow> d | None \<Rightarrow> viewportX m1)
                                (case destY of Some d \<Rightarrow> d | None \<Rightarrow> viewportY m1) m1
                else m1))"

section \<open>Triggers\<close>

text \<open>
  \<open>getTriggersForBox\<close> collects the trigger objects, named here by their key in
  \<open>triggers\<close>, with the columns \<open>i\<close> in the outer loop and the rows \<open>j\<close> in the inner one.
\<close>

function getTriggersForBox_rows :: "map_state \<Rightarrow> int \<Rightarrow> int \<Rightarrow> int \<Rightarrow> int list \<Rightarrow> int list" where
  "getTriggersForBox_rows m i j max2 acc =
     (if j \<le> max2 then
        getTriggersForBox_rows m i (j + 1) max2
          (case triggers m (j * numCols m + i) of
             Some t \<Rightarrow> if \<not> triggered t then acc @ [j * numCols m + i] else acc
           | None \<Rightarrow> acc)
      else acc)"
  by pat_completeness auto
termination
  by (relation "measure (\<lambda>(m, i, j, max2, acc). nat (max2 + 1 - j))") auto

function getTriggersForBox_cols :: "map_state \<Rightarrow> int \<Rightarrow> int \<Rightarrow> int \<Rightarrow> int \<Rightarrow> int list \<Rightarrow> int list" where
  "getTriggersForBox_cols m i max1 j0 max2 acc =
     (if i \<le> max1 then
        getTriggersForBox_cols m (i + 1) max1 j0 max2 (getTriggersForBox_rows m i j0 max2 acc)
      else acc)"
  by pat_completeness auto
termination
  by (relation "measure (\<lambda>(m, i, max1, j0, max2, acc). nat (max1 + 1 - i))") auto

definition getTriggersForBox :: "map_state \<Rightarrow> int \<Rightarrow> int \<Rightarrow> int \<Rightarrow> int \<Rightarrow> int list" where
  "getTriggersForBox m x y x2 y2 =
     (let pos1 = getTileIndexFromPixel m x y;
          pos2 = getTileIndexFromPixel m x2 y;
          pos3 = getTileIndexFromPixel m x y2
      in getTriggersForBox_cols m (fst pos1) (fst pos2) (snd pos1) (snd pos3) [])"

text \<open>
  One step of the \<open>forEach\<close> in \<open>checkForTriggers\<close>: the handler \<open>handleEvent\<close> of the
  map's event object is a parameter; its result is read for truthiness.
\<close>

definition fireTrigger :: "(trigger \<Rightarrow> bool) \<Rightarrow> int \<Rightarrow> (int \<rightharpoonup> trigger) \<Rightarrow> (int \<rightharpoonup> trigger)" where
  "fireTrigger handleEvent k ts =
     (case ts k of
        Some t \<Rightarrow> ts(k \<mapsto> t\<lparr>triggered := \<not> handleEvent t\<rparr>)
      | None \<Rightarrow> ts)"

definition masterBoxTriggers :: "map_state \<Rightarrow> ref \<Rightarrow> int list" where
  "masterBoxTriggers m r =
     (let mo = heap m r; box = obj_hitBox mo
      in getTriggersForBox m (obj_x mo + box_x box) (obj_y mo + box_y box)
                             (obj_x mo + box_x2 box) (obj_y mo + box_y2 box))"

definition dispatchTriggers :: "(trigger \<Rightarrow> bool) \<Rightarrow> ref \<Rightarrow> map_state \<Rightarrow> map_state" where
  "dispatchTriggers handleEvent r m =
     m\<lparr>triggers := fold (fireTrigger handleEvent) (masterBoxTriggers m r) (triggers m)\<rparr>"

text \<open>Without a master object, \<open>this.masterObject.getHitBox()\<close> throws.\<close>

definition checkForTriggers :: "(trigger \<Rightarrow> bool) \<Rightarrow> map_state \<Rightarrow> error + map_state" where
  "checkForTriggers handleEvent m =
     (case masterObject m of
        None \<Rightarrow> Inl TypeError
      | Some r \<Rightarrow> Inr (dispatchTriggers handleEvent r m))"

section \<open>Frame update\<close>

text \<open>
  The objects' own \<open>update(timestamp)\<close> is the parameter \<open>objUpdate\<close>; it acts on the
  object.  Platforms move first, then every other movable object.
\<close>

definition movePlatforms :: "(real \<Rightarrow> drawable \<Rightarrow> drawable) \<Rightarrow> real \<Rightarrow> map_state \<Rightarrow> map_state" where
  "movePlatforms objUpdate timestamp m =
     m\<lparr>heap := fold (\<lambda>r hp. if obj_movable (hp r) then hp(r := objUpdate timestamp (hp r)) else hp)
                     (platforms m) (heap m)\<rparr>"

definition moveObjects :: "(real \<Rightarrow> drawable \<Rightarrow> drawable) \<Rightarrow> real \<Rightarrow> map_state \<Rightarrow> map_state" where
  "moveObjects objUpdate timestamp m =
     m\<lparr>heap := fold (\<lambda>r hp. if obj_collideGroup (hp r) \<noteq> 3 \<and> obj_movable (hp r)
                             then hp(r := objUpdate timestamp (hp r)) else hp)
                     (objects m) (heap m)\<rparr>"

text \<open>
  \<open>update(timestamp)\<close>.  In the idle branch the guard \<open>this.masterObject\<close> makes
  \<open>checkForTriggers\<close> run with a master object.
\<close>

definition update ::
  "(trigger \<Rightarrow> bool) \<Rightarrow> (real \<Rightarrow> drawable \<Rightarrow> drawable) \<Rightarrow> real \<Rightarrow> real \<Rightarrow> map_state \<Rightarrow> map_state" where
  "update handleEvent objUpdate now timestamp m =
     (let m1 =
        (if moving m then
           (let ellapsedTime = timestamp - startMoveTime m;
                t = ellapsedTime / duration m
            in (if ellapsedTime \<ge> duration m then
                  m\<lparr>moving := False,
                    viewportX := viewportTargetX m,
                    viewportY := viewportTargetY m\<rparr>
                else
                  (let moveProgress = easing m t ellapsedTime 0 1 (duration m)
                   in m\<lparr>viewportX := toInt32 (truncReal
                            (real_of_int (viewportStartX m) + moveProgress * real_of_int (viewportSpeedX m))),
                         viewportY := toInt32 (truncReal
                            (real_of_int (viewportStartY m) + moveProgress * real_of_int (viewportSpeedY m)))\<rparr>))
               \<lparr>isDirty := True\<rparr>)
         else
           (case masterObject m of
              Some r \<Rightarrow> dispatchTriggers handleEvent r (checkMasterPosition now m)
            | None \<Rightarrow> m))
      in moveObjects objUpdate timestamp (movePlatforms objUpdate timestamp m1))"

section \<open>Entity registry\<close>

definition setMasterObject :: "ref \<Rightarrow> map_state \<Rightarrow> map_state" where
  "setMasterObject r m =
     m\<lparr>masterObject := Some r,
       heap := (heap m)(r := (heap m r)\<lparr>obj_x := startX m, obj_y := startY m\<rparr>)\<rparr>"

text \<open>
  \<open>addObject(obj, layerIndex = 0)\<close>; \<open>setImage\<close>, \<open>setMap\<close> and \<open>setScene\<close> act on
  fields of the object the map does not read.
\<close>

definition addObject :: "ref \<Rightarrow> int \<Rightarrow> map_state \<Rightarrow> map_state" where
  "addObject r layerIndex m =
     (let m1 = m\<lparr>heap := (heap m)(r := (heap m r)\<lparr>obj_layer := layerIndex\<rparr>),
                 objects := objects m @ [r]\<rparr>;
          m2 = (if obj_master (heap m1 r) then setMasterObject r m1 else m1);
          g = obj_collideGroup (heap m2 r)
      in if g = 1 then m2\<lparr>enemies := enemies m2 @ [r]\<rparr>
         else if g = 2 then m2\<lparr>friendBullets := friendBullets m2 @ [r]\<rparr>
         else if g = 3 then m2\<lparr>platforms := platforms m2 @ [r]\<rparr>
         else m2)"

fun indexOf :: "ref list \<Rightarrow> ref \<Rightarrow> int" where
  "indexOf [] r = -1"
| "indexOf (x # xs) r = (if x = r then 0 else (let i = indexOf xs r in if i > -1 then i + 1 else -1))"

definition splice1 :: "ref list \<Rightarrow> int \<Rightarrow> ref list" where
  "splice1 xs i = take (nat i) xs @ drop (nat i + 1) xs"

definition removeObject :: "ref \<Rightarrow> map_state \<Rightarrow> map_state" where
  "removeObject r m =
     (let foundIndex = indexOf (objects m) r;
          m1 = (if foundIndex > -1 then m\<lparr>objects := splice1 (objects m) foundIndex\<rparr> else m);
          foundIndex2 = indexOf (enemies m1) r
      in if foundIndex2 > -1 then m1\<lparr>enemies := splice1 (enemies m1) foundIndex2\<rparr>
         else (let foundIndex3 = indexOf (friendBullets m1) r
               in if foundIndex3 > -1
                  then m1\<lparr>friendBullets := splice1 (friendBullets m1) foundIndex3\<rparr>
                  else m1))"

section \<open>Windows\<close>





text \<open>
  \<open>checkVisibleWindows\<close>; \<open>None\<close> is a loop that never ends (\<open>maxWinX\<close> not positive).
\<close>

definition startIndex :: "map_state \<Rightarrow> int" where
  "startIndex m =
     (if viewportH m = 0 then 0
      else toInt32 (truncReal (real_of_int \<bar>viewportY m\<bar> / real_of_int (viewportH m)
                               * real_of_int (maxWinX m))))"




section \<open>Swept movement along x\<close>

text \<open>
  The \<open>for\<close> loop of \<open>setNextX\<close> over the rows the hit box spans; its result is
  \<open>found\<close>.  \<open>None\<close> is a loop that never ends.
\<close>

partial_function (option) setNextX_rows ::
  "map_state \<Rightarrow> int \<Rightarrow> int \<Rightarrow> int \<Rightarrow> int \<Rightarrow> int \<Rightarrow> bool option" where
  "setNextX_rows m tileTypes tx ty i spriteYMax =
     (if i < spriteYMax then
        (if view_get (buffer m) (tileBehaviors m) (ty * numCols m + tx) = Some tileTypes
         then Some True
         else setNextX_rows m tileTypes tx (ty + 1) (i + tileHeight m) spriteYMax)
      else Some False)"

text \<open>The \<open>while\<close> loop; its result is the final \<open>(found, minX)\<close>.\<close>

partial_function (option) setNextX_while ::
  "map_state \<Rightarrow> int \<Rightarrow> bool \<Rightarrow> int \<Rightarrow> int \<Rightarrow> int \<Rightarrow> bool \<Rightarrow> int \<Rightarrow> int \<Rightarrow> int \<times> int
     \<Rightarrow> (bool \<times> int) option" where
  "setNextX_while m tileTypes left vx spriteYMax start_y found minX start_x tilePos =
     (if \<not> found \<and> ((left \<and> minX \<ge> vx) \<or> (\<not> left \<and> minX \<le> vx)) then
        Option.bind
          (setNextX_rows m tileTypes (fst tilePos) (snd tilePos)
             (snd tilePos * tileHeight m) spriteYMax)
          (\<lambda>found'.
             (let tx = (if \<not> found' \<and> \<not> left then fst tilePos + 1 else fst tilePos);
                  minX' = (if \<not> found' then tx * tileWidth m - start_x else minX);
                  start_x' = (if left then tx * tileWidth m - 1 else tx * tileWidth m)
              in setNextX_while m tileTypes left vx spriteYMax start_y found' minX' start_x'
                   (getTileIndexFromPixel m start_x' start_y)))
      else Some (found, minX))"

declare setNextX_rows.simps [code] setNextX_while.simps [code]

definition setNextX :: "map_state \<Rightarrow> drawable \<Rightarrow> int \<Rightarrow> (bool \<times> drawable) option" where
  "setNextX m sprite tileTypes =
     (let left = (if obj_vx sprite > 0 then False else True);
          hitBox = obj_hitBox sprite;
          spriteYMax = obj_y sprite + box_y2 hitBox;
          start_x = (if left then obj_x sprite + box_x hitBox - 1
                    else obj_x sprite + box_x2 hitBox + 1);
          start_y = obj_y sprite + box_y hitBox;
          tilePos = getTileIndexFromPixel m start_x start_y
      in Option.bind
           (setNextX_while m tileTypes left (obj_vx sprite) spriteYMax start_y False
              (if left then start_x else 0) start_x tilePos)
           (\<lambda>(found, minX).
              if (left \<and> obj_vx sprite \<ge> minX) \<or> (\<not> left \<and> obj_vx sprite < minX)
              then Some (False, sprite\<lparr>obj_x := obj_x sprite + obj_vx sprite\<rparr>)
              else Some (True, sprite\<lparr>obj_x := obj_x sprite + minX\<rparr>)))"

section \<open>Specification predicates and example maps\<close>

text \<open>
  The planes have the shape the map format prescribes: the visual plane is the first
  \<open>numCols * numRows\<close> bytes of the buffer, the behavior plane the second.
\<close>

definition planesFit :: "map_state \<Rightarrow> bool" where
  "planesFit m =
     (0 \<le> numCols m \<and> 0 \<le> numRows m
      \<and> map_plane m = \<lparr>byteOffset = 0, view_length = nat (numCols m * numRows m)\<rparr>
      \<and> tileBehaviors m = \<lparr>byteOffset = nat (numCols m * numRows m),
                             view_length = nat (numCols m * numRows m)\<rparr>
      \<and> length (buffer m) = 2 * nat (numCols m * numRows m))"

definition validCell :: "map_state \<Rightarrow> int \<Rightarrow> int \<Rightarrow> bool" where
  "validCell m col row = (0 \<le> col \<and> col < numCols m \<and> 0 \<le> row \<and> row < numRows m)"

text \<open>
  The cell \<open>(i, j)\<close> holds a pixel of the rectangle \<open>(x, y)-(x2, y2)\<close>, corners included.
\<close>

definition cellInRect :: "map_state \<Rightarrow> int \<Rightarrow> int \<Rightarrow> int \<Rightarrow> int \<Rightarrow> int \<Rightarrow> int \<Rightarrow> bool" where
  "cellInRect m x y x2 y2 i j =
     (x div tileWidth m \<le> i \<and> i \<le> x2 div tileWidth m
      \<and> y div tileHeight m \<le> j \<and> j \<le> y2 div tileHeight m)"

text \<open>
  The scan as the specification words it: rows from top to bottom, each row from left to
  right, over the cells that meet the rectangle.
\<close>

definition hitObjectTest_rowMajor :: "map_state \<Rightarrow> int \<Rightarrow> int \<Rightarrow> int \<Rightarrow> int \<Rightarrow> int \<Rightarrow> hit option" where
  "hitObjectTest_rowMajor m x y x2 y2 types =
     map_option (\<lambda>(j, i). \<lparr>hit_x = i, hit_y = j,
                            hit_tile_x = i * tileWidth m, hit_tile_y = j * tileHeight m\<rparr>)
       (find (\<lambda>(j, i). getTileBehaviorAtIndex m i j = Some types)
          (concat (map (\<lambda>j. map (\<lambda>i. (j, i)) [x div tileWidth m .. x2 div tileWidth m])
                       [y div tileHeight m .. y2 div tileHeight m])))"

text \<open>The easing \<open>linear\<close>.\<close>

definition linear :: "real \<Rightarrow> real \<Rightarrow> real \<Rightarrow> real \<Rightarrow> real \<Rightarrow> real" where
  "linear t b c d e = t"

text \<open>
  A 2 by 2 grid of 10 pixel tiles; the behavior plane holds the code 2 at the cells
  (col 1, row 0) and (col 0, row 1), and 1 elsewhere.
\<close>

definition grid2x2_options :: options where
  "grid2x2_options =
     \<lparr>opt_tileWidth = Some 10, opt_tileHeight = Some 10,
      opt_width = Some 20, opt_height = Some 20,
      opt_viewportX = None, opt_viewportY = None,
      opt_viewportW = None, opt_viewportH = None,
      opt_startX = None, opt_startY = None,
      opt_triggers = Map.empty, opt_windows = Map.empty,
      opt_easing = linear,
      opt_buffer = [0, 0, 0, 0, 1, 2, 2, 1]\<rparr>"

definition grid2x2 :: map_state where
  "grid2x2 = projr (construct grid2x2_options)"

text \<open>
  A world of 300 by 200 pixels in 10 pixel tiles behind a viewport of 100 by 100 pixels:
  \<open>xMax = 200\<close>, \<open>yMax = 100\<close>, three windows per row.  Windows 0 and 1 hold items,
  the tiles (col 1, row 1) and (col 2, row 1) hold triggers.
\<close>

definition world_options :: options where
  "world_options =
     \<lparr>opt_tileWidth = Some 10, opt_tileHeight = Some 10,
      opt_width = Some 300, opt_height = Some 200,
      opt_viewportX = None, opt_viewportY = None,
      opt_viewportW = Some 100, opt_viewportH = Some 100,
      opt_startX = None, opt_startY = None,
      opt_triggers = [31 \<mapsto> \<lparr>triggered = False, payload = ''door''\<rparr>,
                      32 \<mapsto> \<lparr>triggered = False, payload = ''lamp''\<rparr>],
      opt_windows =
        [0 \<mapsto> \<lparr>displayed = Some False,
                 items = [\<lparr>item_type = ''enemy'', item_spriteOptions = \<lparr>so_x = 10, so_y = 10\<rparr>,
                           item_itemId = None\<rparr>,
                          \<lparr>item_type = ''gem'', item_spriteOptions = \<lparr>so_x = 50, so_y = 10\<rparr>,
                           item_itemId = Some ''gem1''\<rparr>]\<rparr>,
         1 \<mapsto> \<lparr>displayed = Some False,
                 items = [\<lparr>item_type = ''enemy'', item_spriteOptions = \<lparr>so_x = 150, so_y = 10\<rparr>,
                           item_itemId = None\<rparr>]\<rparr>],
      opt_easing = linear,
      opt_buffer = replicate 1200 0\<rparr>"

definition world :: map_state where
  "world = projr (construct world_options)"


definition platformObject :: drawable where
  "platformObject = defaultObject\<lparr>obj_collideGroup := 3\<rparr>"

text \<open>The viewport offset, and the scroll target, lie in the clamped region.\<close>

definition viewportInRange :: "map_state \<Rightarrow> bool" where
  "viewportInRange m =
     (- xMax m \<le> viewportX m \<and> viewportX m \<le> 0 \<and> - yMax m \<le> viewportY m \<and> viewportY m \<le> 0)"

definition targetInRange :: "map_state \<Rightarrow> bool" where
  "targetInRange m =
     (- xMax m \<le> viewportTargetX m \<and> viewportTargetX m \<le> 0
      \<and> - yMax m \<le> viewportTargetY m \<and> viewportTargetY m \<le> 0)"

text \<open>
  The calls that drive the scroll controller: \<open>moveTo(x, y)\<close> at clock \<open>now\<close>,
  \<open>update(timestamp)\<close> and \<open>checkMasterPosition()\<close>.
\<close>

datatype scrollCall = MoveTo real int int | Update real real | CheckMasterPosition real

fun applyCall ::
  "(trigger \<Rightarrow> bool) \<Rightarrow> (real \<Rightarrow> drawable \<Rightarrow> drawable) \<Rightarrow> scrollCall \<Rightarrow> map_state \<Rightarrow> map_state" where
  "applyCall handleEvent objUpdate (MoveTo now x y) m = moveTo now x y m"
| "applyCall handleEvent objUpdate (Update now timestamp) m = update handleEvent objUpdate now timestamp m"
| "applyCall handleEvent objUpdate (CheckMasterPosition now) m = checkMasterPosition now m"

text \<open>
  The invariant of the scroll controller: an idle viewport is in range, an in-flight
  scroll has its target in range.  \<open>scrollPending\<close> names an in-flight scroll by its
  start time, duration and target.
\<close>

definition scrollInv :: "map_state \<Rightarrow> bool" where
  "scrollInv m = (0 \<le> xMax m \<and> 0 \<le> yMax m \<and> (if moving m then targetInRange m else viewportInRange m))"

definition scrollPending :: "map_state \<Rightarrow> real \<Rightarrow> real \<Rightarrow> int \<Rightarrow> int \<Rightarrow> bool" where
  "scrollPending m t0 d tx ty =
     (moving m \<and> startMoveTime m = t0 \<and> duration m = d
      \<and> viewportTargetX m = tx \<and> viewportTargetY m = ty)"

text \<open>A trigger that exists and has not fired yet.\<close>

definition unfired :: "map_state \<Rightarrow> int \<Rightarrow> bool" where
  "unfired m k = (case triggers m k of Some t \<Rightarrow> \<not> triggered t | None \<Rightarrow> False)"

text \<open>
  The example world with a master object whose hit box covers the tiles of both
  triggers, and a handler that answers true for the lamp only.
\<close>

definition masterSprite :: drawable where
  "masterSprite = defaultObject\<lparr>obj_hitBox := \<lparr>box_x = 0, box_y = 0, box_x2 = 25, box_y2 = 15\<rparr>,
                                obj_master := True\<rparr>"

definition worldWithMaster :: map_state where
  "worldWithMaster = addObject 0 0 (world\<lparr>heap := (heap world)(0 := masterSprite)\<rparr>)"

definition exampleHandler :: "trigger \<Rightarrow> bool" where
  "exampleHandler t = (payload t = ''lamp'')"




text \<open>
  The scenario of the swept movement: a 4 by 4 grid of 10 pixel tiles with the wall
  code 2 at the cell (col 2, row 1) and 1 elsewhere, and an entity at (0, 10) moving
  right with \<open>vx = 25\<close>, whose hit box is 10 high and reaches from its position to
  \<open>x2\<close>.
\<close>

definition grid4x4_options :: options where
  "grid4x4_options =
     \<lparr>opt_tileWidth = Some 10, opt_tileHeight = Some 10,
      opt_width = Some 40, opt_height = Some 40,
      opt_viewportX = None, opt_viewportY = None,
      opt_viewportW = None, opt_viewportH = None,
      opt_startX = None, opt_startY = None,
      opt_triggers = Map.empty, opt_windows = Map.empty,
      opt_easing = linear,
      opt_buffer = [0, 0, 0, 0,  0, 0, 0, 0,  0, 0, 0, 0,  0, 0, 0, 0,
                    1, 1, 1, 1,  1, 1, 2, 1,  1, 1, 1, 1,  1, 1, 1, 1]\<rparr>"

definition grid4x4 :: map_state where
  "grid4x4 = projr (construct grid4x4_options)"

definition entity :: "int \<Rightarrow> drawable" where
  "entity x2 =
     defaultObject\<lparr>obj_x := 0, obj_y := 10, obj_vx := 25,
                   obj_hitBox := \<lparr>box_x = 0, box_y = 0, box_x2 = x2, box_y2 = 10\<rparr>\<rparr>"

section \<open>Auxiliary facts\<close>


declare hitObjectTest_rows.simps [simp del] hitObjectTest_cols.simps [simp del]

lemma toInt32_id: "- (2 ^ 31) \<le> n \<Longrightarrow> n < 2 ^ 31 \<Longrightarrow> toInt32 n = n"
  by (simp add: toInt32_def)

lemma divToInt32_nonneg:
  assumes "0 \<le> a" "0 < b" "a div b < 2 ^ 31"
  shows "divToInt32 a b = a div b"
proof -
  have "0 \<le> a div b" using assms by (simp add: pos_imp_zdiv_nonneg_iff)
  then have t: "toInt32 (a div b) = a div b" using assms by (intro toInt32_id) auto
  have eq: "sgn a * sgn b * (\<bar>a\<bar> div \<bar>b\<bar>) = a div b"
    using assms by (cases "a = 0") (auto simp: sgn_if)
  have "divToInt32 a b = toInt32 (sgn a * sgn b * (\<bar>a\<bar> div \<bar>b\<bar>))"
    using assms by (simp add: divToInt32_def)
  also have "\<dots> = a div b" by (simp only: eq t)
  finally show ?thesis .
qed

lemma beh_index:
  "getTileBehaviorAtIndex m i j = view_get (buffer m) (tileBehaviors m) (j * numCols m + i)"
  by (simp add: getTileBehaviorAtIndex_def mult.commute add.commute)

lemma rows_None:
  "hitObjectTest_rows m t i j max2 = None \<longleftrightarrow> (\<forall>j'. j \<le> j' \<and> j' \<le> max2 \<longrightarrow> getTileBehaviorAtIndex m i j' \<noteq> Some t)"
proof (induction m t i j max2 rule: hitObjectTest_rows.induct)
  case (1 m t i j max2)
  show ?case
  proof (cases "j \<le> max2")
    case False
    then show ?thesis by (subst hitObjectTest_rows.simps) auto
  next
    case True
    show ?thesis
    proof (cases "getTileBehaviorAtIndex m i j = Some t")
      case True
      with \<open>j \<le> max2\<close> show ?thesis
        by (subst hitObjectTest_rows.simps) (auto simp: beh_index)
    next
      case False
      have "(\<forall>j'. j \<le> j' \<and> j' \<le> max2 \<longrightarrow> getTileBehaviorAtIndex m i j' \<noteq> Some t)
            \<longleftrightarrow> (\<forall>j'. j + 1 \<le> j' \<and> j' \<le> max2 \<longrightarrow> getTileBehaviorAtIndex m i j' \<noteq> Some t)"
        using False by (metis add1_zle_eq order_le_less)
      with False True 1 show ?thesis
        by (subst hitObjectTest_rows.simps) (simp add: beh_index)
    qed
  qed
qed

lemma rows_Some:
  "hitObjectTest_rows m t i j max2 = Some h \<Longrightarrow>
     hit_x h = i \<and> j \<le> hit_y h \<and> hit_y h \<le> max2 \<and> getTileBehaviorAtIndex m i (hit_y h) = Some t
     \<and> hit_tile_x h = i * tileWidth m \<and> hit_tile_y h = hit_y h * tileHeight m
     \<and> (\<forall>j'. j \<le> j' \<and> j' < hit_y h \<longrightarrow> getTileBehaviorAtIndex m i j' \<noteq> Some t)"
proof (induction m t i j max2 rule: hitObjectTest_rows.induct)
  case (1 m t i j max2)
  from "1.prems" have le: "j \<le> max2"
    by (subst (asm) hitObjectTest_rows.simps) (auto split: if_splits)
  show ?case
  proof (cases "getTileBehaviorAtIndex m i j = Some t")
    case True
    with le "1.prems" have "h = \<lparr>hit_x = i, hit_y = j, hit_tile_x = i * tileWidth m, hit_tile_y = j * tileHeight m\<rparr>"
      by (subst (asm) hitObjectTest_rows.simps) (auto simp: beh_index)
    with True le show ?thesis by auto
  next
    case False
    with le "1.prems" have rec: "hitObjectTest_rows m t i (j + 1) max2 = Some h"
      by (subst (asm) hitObjectTest_rows.simps) (auto simp: beh_index)
    from False le have c: "view_get (buffer m) (tileBehaviors m) (j * numCols m + i) \<noteq> Some t"
      by (simp add: beh_index)
    note ih = "1.IH"[OF le c rec]
    have "\<forall>j'. j \<le> j' \<and> j' < hit_y h \<longrightarrow> getTileBehaviorAtIndex m i j' \<noteq> Some t"
    proof (intro allI impI)
      fix j' assume a: "j \<le> j' \<and> j' < hit_y h"
      show "getTileBehaviorAtIndex m i j' \<noteq> Some t"
      proof (cases "j' = j")
        case True then show ?thesis using False by simp
      next
        case False
        with a have "j + 1 \<le> j' \<and> j' < hit_y h" by auto
        with ih show ?thesis by blast
      qed
    qed
    with ih show ?thesis by auto
  qed
qed

lemma cols_None:
  "hitObjectTest_cols m t i max1 j0 max2 = None \<longleftrightarrow>
     (\<forall>i' j'. i \<le> i' \<and> i' \<le> max1 \<and> j0 \<le> j' \<and> j' \<le> max2 \<longrightarrow> getTileBehaviorAtIndex m i' j' \<noteq> Some t)"
proof (induction m t i max1 j0 max2 rule: hitObjectTest_cols.induct)
  case (1 m t i max1 j0 max2)
  show ?case
  proof (cases "i \<le> max1")
    case False
    then show ?thesis by (subst hitObjectTest_cols.simps) auto
  next
    case True
    show ?thesis
    proof (cases "hitObjectTest_rows m t i j0 max2")
      case (Some h)
      from rows_Some[OF Some] True have "\<exists>i' j'. i \<le> i' \<and> i' \<le> max1 \<and> j0 \<le> j' \<and> j' \<le> max2 \<and> getTileBehaviorAtIndex m i' j' = Some t"
        by (intro exI[of _ i] exI[of _ "hit_y h"]) auto
      with Some True show ?thesis
        by (subst hitObjectTest_cols.simps) auto
    next
      case None
      then have r: "\<forall>j'. j0 \<le> j' \<and> j' \<le> max2 \<longrightarrow> getTileBehaviorAtIndex m i j' \<noteq> Some t"
        by (simp add: rows_None)
      have "(\<forall>i' j'. i \<le> i' \<and> i' \<le> max1 \<and> j0 \<le> j' \<and> j' \<le> max2 \<longrightarrow> getTileBehaviorAtIndex m i' j' \<noteq> Some t)
         \<longleftrightarrow> (\<forall>i' j'. i + 1 \<le> i' \<and> i' \<le> max1 \<and> j0 \<le> j' \<and> j' \<le> max2 \<longrightarrow> getTileBehaviorAtIndex m i' j' \<noteq> Some t)"
        (is "?L \<longleftrightarrow> ?R")
      proof
        assume ?L then show ?R by auto
      next
        assume R: ?R
        show ?L
        proof (intro allI impI)
          fix i' j' assume a: "i \<le> i' \<and> i' \<le> max1 \<and> j0 \<le> j' \<and> j' \<le> max2"
          show "getTileBehaviorAtIndex m i' j' \<noteq> Some t"
          proof (cases "i' = i")
            case True with r a show ?thesis by blast
          next
            case False with a have "i + 1 \<le> i'" by auto
            with R a show ?thesis by blast
          qed
        qed
      qed
      with None True "1.IH"[OF True None] show ?thesis
        by (subst hitObjectTest_cols.simps) simp
    qed
  qed
qed

lemma cols_Some:
  "hitObjectTest_cols m t i max1 j0 max2 = Some h \<Longrightarrow>
     i \<le> hit_x h \<and> hit_x h \<le> max1 \<and> j0 \<le> hit_y h \<and> hit_y h \<le> max2
     \<and> getTileBehaviorAtIndex m (hit_x h) (hit_y h) = Some t
     \<and> hit_tile_x h = hit_x h * tileWidth m \<and> hit_tile_y h = hit_y h * tileHeight m
     \<and> (\<forall>i' j'. i \<le> i' \<and> i' \<le> max1 \<and> j0 \<le> j' \<and> j' \<le> max2 \<and> getTileBehaviorAtIndex m i' j' = Some t
          \<longrightarrow> hit_x h < i' \<or> (hit_x h = i' \<and> hit_y h \<le> j'))"
proof (induction m t i max1 j0 max2 rule: hitObjectTest_cols.induct)
  case (1 m t i max1 j0 max2)
  from "1.prems" have le: "i \<le> max1"
    by (subst (asm) hitObjectTest_cols.simps) (auto split: if_splits)
  show ?case
  proof (cases "hitObjectTest_rows m t i j0 max2")
    case (Some h')
    with le "1.prems" have "h' = h"
      by (subst (asm) hitObjectTest_cols.simps) auto
    with rows_Some[OF Some] le show ?thesis
      by (auto simp: not_less)
  next
    case None
    with le "1.prems" have rec: "hitObjectTest_cols m t (i + 1) max1 j0 max2 = Some h"
      by (subst (asm) hitObjectTest_cols.simps) auto
    note ih = "1.IH"[OF le None rec]
    from None have r: "\<forall>j'. j0 \<le> j' \<and> j' \<le> max2 \<longrightarrow> getTileBehaviorAtIndex m i j' \<noteq> Some t"
      by (simp add: rows_None)
    have "\<forall>i' j'. i \<le> i' \<and> i' \<le> max1 \<and> j0 \<le> j' \<and> j' \<le> max2 \<and> getTileBehaviorAtIndex m i' j' = Some t
          \<longrightarrow> hit_x h < i' \<or> (hit_x h = i' \<and> hit_y h \<le> j')"
    proof (intro allI impI)
      fix i' j' assume a: "i \<le> i' \<and> i' \<le> max1 \<and> j0 \<le> j' \<and> j' \<le> max2 \<and> getTileBehaviorAtIndex m i' j' = Some t"
      with r have "i' \<noteq> i" by blast
      with a have "i + 1 \<le> i'" by auto
      with ih a show "hit_x h < i' \<or> (hit_x h = i' \<and> hit_y h \<le> j')" by blast
    qed
    with ih show ?thesis by auto
  qed
qed

lemma grid2x2_construct: "construct grid2x2_options = Inr grid2x2"
  by (simp add: grid2x2_def construct_def setBuffer_def grid2x2_options_def orDefault_def divToInt32_def toInt32_def Let_def)

lemma grid2x2_fields:
  "tileWidth grid2x2 = 10" "tileHeight grid2x2 = 10" "numCols grid2x2 = 2" "numRows grid2x2 = 2"
  "buffer grid2x2 = [0, 0, 0, 0, 1, 2, 2, 1]"
  "map_plane grid2x2 = \<lparr>byteOffset = 0, view_length = 4\<rparr>"
  "tileBehaviors grid2x2 = \<lparr>byteOffset = 4, view_length = 4\<rparr>"
  by (simp_all add: grid2x2_def construct_def setBuffer_def grid2x2_options_def orDefault_def divToInt32_def toInt32_def Let_def)

lemma grid2x2_planesFit: "planesFit grid2x2"
  by (simp add: planesFit_def grid2x2_fields)

lemma divToInt32_pos:
  assumes "0 \<le> a" "0 < b" "\<bar>a\<bar> < 2 ^ 31"
  shows "divToInt32 a b = a div b"
proof -
  have "a div b \<le> a" using assms by (cases "a = 0") (auto intro: int_div_le_self)
  with assms show ?thesis by (intro divToInt32_nonneg) auto
qed

lemma divToInt32_neg:
  assumes "a < 0" "0 < b" "\<bar>a\<bar> < 2 ^ 31"
  shows "divToInt32 a b = - ((- a) div b)"
proof -
  have le: "(- a) div b \<le> - a" using assms by (intro int_div_le_self) auto
  have ge: "0 \<le> (- a) div b" using assms by (simp add: pos_imp_zdiv_nonneg_iff)
  have t: "toInt32 (- ((- a) div b)) = - ((- a) div b)"
    using le ge assms by (intro toInt32_id) auto
  have eq: "sgn a * sgn b * (\<bar>a\<bar> div \<bar>b\<bar>) = - ((- a) div b)"
    using assms by (auto simp: sgn_if)
  have "divToInt32 a b = toInt32 (sgn a * sgn b * (\<bar>a\<bar> div \<bar>b\<bar>))"
    using assms by (simp add: divToInt32_def)
  also have "\<dots> = - ((- a) div b)" by (simp only: eq t)
  finally show ?thesis .
qed

lemma grid2x2_hit:
  "hitObjectTest grid2x2 0 0 19 19 2 = Some \<lparr>hit_x = 0, hit_y = 1, hit_tile_x = 0, hit_tile_y = 10\<rparr>"
  by (simp add: hitObjectTest_def getTileIndexFromPixel_def grid2x2_fields divToInt32_def toInt32_def view_get_def
        hitObjectTest_rows.simps hitObjectTest_cols.simps)

lemma cell_index_bound:
  assumes "validCell m c r"
  shows "0 \<le> r * numCols m + c" "r * numCols m + c < numCols m * numRows m"
proof -
  from assms have c: "0 \<le> c" "c < numCols m" and r: "0 \<le> r" "r + 1 \<le> numRows m"
    by (auto simp: validCell_def)
  show "0 \<le> r * numCols m + c" using c r by simp
  have "(r + 1) * numCols m \<le> numRows m * numCols m"
    using r c by (intro mult_right_mono) auto
  then show "r * numCols m + c < numCols m * numRows m"
    using c by (simp add: algebra_simps)
qed

lemma cell_index_inj:
  assumes "validCell m c r" "validCell m c' r'" "r * numCols m + c = r' * numCols m + c'"
  shows "c = c' \<and> r = r'"
proof -
  from assms have c: "0 \<le> c" "c < numCols m" "0 \<le> c'" "c' < numCols m"
    by (auto simp: validCell_def)
  have "(r * numCols m + c) div numCols m = r" using c by simp
  moreover have "(r' * numCols m + c') div numCols m = r'" using c by simp
  ultimately have "r = r'" using assms(3) by simp
  with assms(3) show ?thesis by simp
qed

lemma uint_byte: "0 \<le> B \<Longrightarrow> B \<le> 255 \<Longrightarrow> uint (word_of_int B :: 8 word) = B"
  by (simp add: uint_word_of_int_eq take_bit_int_eq_self)

lemma grid2x2_size: "width grid2x2 = 20" "height grid2x2 = 20"
  by (simp_all add: grid2x2_def construct_def setBuffer_def grid2x2_options_def orDefault_def divToInt32_def toInt32_def Let_def)

lemma view_get_outside:
  assumes "planesFit m" "idx < 0 \<or> numCols m * numRows m \<le> idx"
  shows "view_get (buffer m) (tileBehaviors m) idx = None"
  using assms by (auto simp: planesFit_def view_get_def)

lemma divToInt32_le_m1:
  assumes "0 < b" "a \<le> - b" "\<bar>a\<bar> < 2 ^ 31"
  shows "divToInt32 a b \<le> -1"
proof -
  from assms have neg: "a < 0" by simp
  have "b \<le> - a" using assms by simp
  then have "1 \<le> (- a) div b" using assms(1)
    using int_one_le_iff_zero_less pos_imp_zdiv_pos_iff by presburger
  with divToInt32_neg[OF neg assms(1) assms(3)] show ?thesis by simp
qed

lemma divToInt32_le_0:
  assumes "0 < b" "a < 0" "\<bar>a\<bar> < 2 ^ 31"
  shows "divToInt32 a b \<le> 0"
proof -
  have "0 \<le> (- a) div b" using assms by (simp add: pos_imp_zdiv_nonneg_iff)
  with divToInt32_neg[OF assms(2) assms(1) assms(3)] show ?thesis by simp
qed

lemma divToInt32_lt_cols:
  assumes "0 < b" "a < n * b" "0 < n" "\<bar>a\<bar> < 2 ^ 31"
  shows "divToInt32 a b < n"
proof (cases "a < 0")
  case True
  from divToInt32_le_0[OF assms(1) True assms(4)] assms(3) show ?thesis by simp
next
  case False
  then have "divToInt32 a b = a div b" using assms by (intro divToInt32_pos) auto
  moreover have "a div b < n"
  proof (rule ccontr)
    assume "\<not> a div b < n"
    then have "n * b \<le> (a div b) * b" using assms(1) by (intro mult_right_mono) auto
    moreover have "(a div b) * b = a - a mod b" by (simp add: minus_mod_eq_div_mult)
    moreover have "0 \<le> a mod b" using assms(1) by simp
    ultimately have "n * b \<le> a" by linarith
    with assms(2) show False by simp
  qed
  ultimately show ?thesis by simp
qed

lemma div_ge_rows:
  assumes "0 < b" "n * b \<le> a"
  shows "n \<le> a div (b::int)"
  using assms zdiv_mono1 by fastforce

lemma world_construct: "construct world_options = Inr world"
  by (simp add: world_def construct_def setBuffer_def world_options_def orDefault_def divToInt32_def toInt32_def Let_def)

lemma world_fields:
  "tileWidth world = 10" "tileHeight world = 10" "numCols world = 30" "numRows world = 20"
  "viewportX world = 0" "viewportY world = 0" "viewportW world = 100" "viewportH world = 100"
  "xMax world = 200" "yMax world = 100" "maxWinX world = 3" "moving world = False"
  "duration world = 800" "easing world = linear" "masterObject world = None"
  "objects world = []" "enemies world = []" "friendBullets world = []" "platforms world = []"
  "nextRef world = 0" "eventItems world = []" "startX world = 0" "startY world = 0"
  "windows world = opt_windows world_options" "triggers world = opt_triggers world_options"
  by (simp_all add: world_def construct_def setBuffer_def world_options_def orDefault_def divToInt32_def toInt32_def Let_def)

lemma movePlatforms_scroll:
  "viewportX (movePlatforms u ts m) = viewportX m" "viewportY (movePlatforms u ts m) = viewportY m"
  "xMax (movePlatforms u ts m) = xMax m" "yMax (movePlatforms u ts m) = yMax m"
  "moving (movePlatforms u ts m) = moving m"
  "viewportTargetX (movePlatforms u ts m) = viewportTargetX m"
  "viewportTargetY (movePlatforms u ts m) = viewportTargetY m"
  "startMoveTime (movePlatforms u ts m) = startMoveTime m"
  "duration (movePlatforms u ts m) = duration m"
  by (simp_all add: movePlatforms_def)

lemma moveObjects_scroll:
  "viewportX (moveObjects u ts m) = viewportX m" "viewportY (moveObjects u ts m) = viewportY m"
  "xMax (moveObjects u ts m) = xMax m" "yMax (moveObjects u ts m) = yMax m"
  "moving (moveObjects u ts m) = moving m"
  "viewportTargetX (moveObjects u ts m) = viewportTargetX m"
  "viewportTargetY (moveObjects u ts m) = viewportTargetY m"
  "startMoveTime (moveObjects u ts m) = startMoveTime m"
  "duration (moveObjects u ts m) = duration m"
  by (simp_all add: moveObjects_def)

lemma dispatchTriggers_scroll:
  "viewportX (dispatchTriggers h r m) = viewportX m" "viewportY (dispatchTriggers h r m) = viewportY m"
  "xMax (dispatchTriggers h r m) = xMax m" "yMax (dispatchTriggers h r m) = yMax m"
  "moving (dispatchTriggers h r m) = moving m"
  "viewportTargetX (dispatchTriggers h r m) = viewportTargetX m"
  "viewportTargetY (dispatchTriggers h r m) = viewportTargetY m"
  "startMoveTime (dispatchTriggers h r m) = startMoveTime m"
  "duration (dispatchTriggers h r m) = duration m"
  by (simp_all add: dispatchTriggers_def)

lemma moveTo_inv: "scrollInv m \<Longrightarrow> scrollInv (moveTo now x y m)"
  by (cases "moving m") (auto simp: scrollInv_def moveTo_def Let_def targetInRange_def viewportInRange_def)

lemma moveTo_consts:
  "xMax (moveTo now x y m) = xMax m" "yMax (moveTo now x y m) = yMax m"
  "viewportX (moveTo now x y m) = viewportX m" "viewportY (moveTo now x y m) = viewportY m"
  by (simp_all add: moveTo_def Let_def)

lemma checkMasterPosition_inv: "scrollInv m \<Longrightarrow> scrollInv (checkMasterPosition now m)"
  unfolding checkMasterPosition_def Let_def
  by (auto split: option.splits intro!: moveTo_inv)

lemma scrollInv_cong:
  assumes "xMax m' = xMax m" "yMax m' = yMax m" "moving m' = moving m"
    "viewportX m' = viewportX m" "viewportY m' = viewportY m"
    "viewportTargetX m' = viewportTargetX m" "viewportTargetY m' = viewportTargetY m"
  shows "scrollInv m' = scrollInv m"
  using assms by (simp add: scrollInv_def targetInRange_def viewportInRange_def)

lemma update_inv:
  assumes "scrollInv m"
  shows "scrollInv (update h u now ts m)"
proof -
  define m1 where "m1 =
        (if moving m then
           (let ellapsedTime = ts - startMoveTime m;
                t = ellapsedTime / duration m
            in (if ellapsedTime \<ge> duration m then
                  m\<lparr>moving := False,
                    viewportX := viewportTargetX m,
                    viewportY := viewportTargetY m\<rparr>
                else
                  (let moveProgress = easing m t ellapsedTime 0 1 (duration m)
                   in m\<lparr>viewportX := toInt32 (truncReal
                            (real_of_int (viewportStartX m) + moveProgress * real_of_int (viewportSpeedX m))),
                         viewportY := toInt32 (truncReal
                            (real_of_int (viewportStartY m) + moveProgress * real_of_int (viewportSpeedY m)))\<rparr>))
               \<lparr>isDirty := True\<rparr>)
         else
           (case masterObject m of
              Some r \<Rightarrow> dispatchTriggers h r (checkMasterPosition now m)
            | None \<Rightarrow> m))"
  have u: "update h u now ts m = moveObjects u ts (movePlatforms u ts m1)"
    by (simp add: update_def m1_def)
  have "scrollInv m1"
  proof (cases "moving m")
    case True
    with assms show ?thesis
      by (auto simp: m1_def Let_def scrollInv_def targetInRange_def viewportInRange_def)
  next
    case False
    show ?thesis
    proof (cases "masterObject m")
      case None
      with False assms show ?thesis by (simp add: m1_def)
    next
      case (Some r)
      have "scrollInv (dispatchTriggers h r (checkMasterPosition now m)) = scrollInv (checkMasterPosition now m)"
        by (rule scrollInv_cong) (simp_all add: dispatchTriggers_scroll)
      with Some False checkMasterPosition_inv[OF assms] show ?thesis by (simp add: m1_def)
    qed
  qed
  moreover have "scrollInv (moveObjects u ts (movePlatforms u ts m1)) = scrollInv m1"
    by (rule scrollInv_cong) (simp_all add: moveObjects_scroll movePlatforms_scroll)
  ultimately show ?thesis by (simp add: u)
qed

lemma applyCall_inv: "scrollInv m \<Longrightarrow> scrollInv (applyCall h u c m)"
  by (cases c) (simp_all add: moveTo_inv update_inv checkMasterPosition_inv)

lemma fold_applyCall_inv: "scrollInv m \<Longrightarrow> scrollInv (fold (applyCall h u) cs m)"
  by (induction cs arbitrary: m) (simp_all add: applyCall_inv)

lemma update_early:
  assumes "scrollPending m t0 d tx ty" "ts - t0 < d"
  shows "scrollPending (update h u c ts m) t0 d tx ty"
  using assms
  by (simp add: scrollPending_def update_def Let_def moveObjects_scroll movePlatforms_scroll)

lemma update_early_fold:
  assumes "scrollPending m t0 d tx ty" "\<forall>p \<in> set early. snd p - t0 < d"
  shows "scrollPending (fold (\<lambda>p. update h u (fst p) (snd p)) early m) t0 d tx ty"
  using assms
  by (induction early arbitrary: m) (simp_all add: update_early)

lemma update_late:
  assumes "scrollPending m t0 d tx ty" "d \<le> ts - t0"
  shows "\<not> moving (update h u c ts m) \<and> viewportX (update h u c ts m) = tx
       \<and> viewportY (update h u c ts m) = ty"
  using assms
  by (simp add: scrollPending_def update_def Let_def moveObjects_scroll movePlatforms_scroll)

lemma moveTo_accepted:
  assumes "\<not> moving m" "viewportX m \<noteq> max x (- xMax m) \<or> viewportY m \<noteq> max y (- yMax m)"
  shows "scrollPending (moveTo now x y m) now (duration m)
           (min 0 (max (- xMax m) x)) (min 0 (max (- yMax m) y))"
  using assms
  by (auto simp: scrollPending_def moveTo_def Let_def min_def max_def)

declare getTriggersForBox_rows.simps [simp del] getTriggersForBox_cols.simps [simp del]


lemma triggers_rows_set:
  "set (getTriggersForBox_rows m i j max2 acc) =
     set acc \<union> {j' * numCols m + i | j'. j \<le> j' \<and> j' \<le> max2 \<and> unfired m (j' * numCols m + i)}"
proof (induction m i j max2 acc rule: getTriggersForBox_rows.induct)
  case (1 m i j max2 acc)
  show ?case
  proof (cases "j \<le> max2")
    case False
    then show ?thesis by (subst getTriggersForBox_rows.simps) auto
  next
    case True
    have split: "{j' * numCols m + i | j'. j \<le> j' \<and> j' \<le> max2 \<and> unfired m (j' * numCols m + i)}
       = (if unfired m (j * numCols m + i) then {j * numCols m + i} else {})
         \<union> {j' * numCols m + i | j'. j + 1 \<le> j' \<and> j' \<le> max2 \<and> unfired m (j' * numCols m + i)}"
      (is "?A = ?B \<union> ?C")
    proof (intro set_eqI iffI)
      fix k assume "k \<in> ?A"
      then obtain j' where j': "k = j' * numCols m + i" "j \<le> j'" "j' \<le> max2" "unfired m (j' * numCols m + i)"
        by blast
      show "k \<in> ?B \<union> ?C"
      proof (cases "j' = j")
        case True with j' show ?thesis by simp
      next
        case False with j' have "j + 1 \<le> j'" by simp
        with j' show ?thesis by blast
      qed
    next
      fix k assume "k \<in> ?B \<union> ?C"
      then show "k \<in> ?A" using True by (auto split: if_splits)
    qed
    have acc': "set (case triggers m (j * numCols m + i) of
                       Some t \<Rightarrow> if \<not> triggered t then acc @ [j * numCols m + i] else acc
                     | None \<Rightarrow> acc)
                = set acc \<union> (if unfired m (j * numCols m + i) then {j * numCols m + i} else {})"
      by (auto simp: unfired_def split: option.splits)
    have "getTriggersForBox_rows m i j max2 acc =
            getTriggersForBox_rows m i (j + 1) max2
              (case triggers m (j * numCols m + i) of
                 Some t \<Rightarrow> if \<not> triggered t then acc @ [j * numCols m + i] else acc
               | None \<Rightarrow> acc)"
      using True by (subst getTriggersForBox_rows.simps) simp
    then show ?thesis
      by (simp only: "1.IH"[OF True] acc' split Un_assoc)
  qed
qed

lemma triggers_cols_set:
  "set (getTriggersForBox_cols m i max1 j0 max2 acc) =
     set acc \<union> {j' * numCols m + i' | i' j'. i \<le> i' \<and> i' \<le> max1 \<and> j0 \<le> j' \<and> j' \<le> max2
                     \<and> unfired m (j' * numCols m + i')}"
proof (induction m i max1 j0 max2 acc rule: getTriggersForBox_cols.induct)
  case (1 m i max1 j0 max2 acc)
  show ?case
  proof (cases "i \<le> max1")
    case False
    then show ?thesis by (subst getTriggersForBox_cols.simps) auto
  next
    case True
    have split: "{j' * numCols m + i' | i' j'. i \<le> i' \<and> i' \<le> max1 \<and> j0 \<le> j' \<and> j' \<le> max2
                     \<and> unfired m (j' * numCols m + i')}
       = {j' * numCols m + i | j'. j0 \<le> j' \<and> j' \<le> max2 \<and> unfired m (j' * numCols m + i)}
         \<union> {j' * numCols m + i' | i' j'. i + 1 \<le> i' \<and> i' \<le> max1 \<and> j0 \<le> j' \<and> j' \<le> max2
                     \<and> unfired m (j' * numCols m + i')}"
      (is "?A = ?B \<union> ?C")
    proof (intro set_eqI iffI)
      fix k assume "k \<in> ?A"
      then obtain i' j' where j': "k = j' * numCols m + i'" "i \<le> i'" "i' \<le> max1" "j0 \<le> j'" "j' \<le> max2"
         "unfired m (j' * numCols m + i')"
        by blast
      show "k \<in> ?B \<union> ?C"
      proof (cases "i' = i")
        case True with j' show ?thesis by blast
      next
        case False with j' have "i + 1 \<le> i'" by simp
        with j' show ?thesis by blast
      qed
    next
      fix k assume "k \<in> ?B \<union> ?C"
      then show "k \<in> ?A" using True by fastforce
    qed
    show ?thesis
      by (subst getTriggersForBox_cols.simps)
         (use True in \<open>simp add: "1.IH"[OF True] triggers_rows_set split Un_assoc\<close>)
  qed
qed

lemma fireTrigger_other: "k' \<noteq> k \<Longrightarrow> fireTrigger h k ts k' = ts k'"
  by (simp add: fireTrigger_def split: option.splits)

lemma fireTrigger_same: "ts k = Some t \<Longrightarrow> fireTrigger h k ts k = Some (t\<lparr>triggered := \<not> h t\<rparr>)"
  by (simp add: fireTrigger_def)

lemma fold_fire_notin: "k \<notin> set ks \<Longrightarrow> fold (fireTrigger h) ks ts k = ts k"
  by (induction ks arbitrary: ts) (simp_all add: fireTrigger_other)

lemma fold_fire_payload:
  "ts k = Some t \<Longrightarrow> \<exists>t'. fold (fireTrigger h) ks ts k = Some t' \<and> payload t' = payload t"
proof (induction ks arbitrary: ts t)
  case Nil
  then show ?case by simp
next
  case (Cons a ks)
  show ?case
  proof (cases "a = k")
    case True
    from Cons.prems have "fireTrigger h a ts k = Some (t\<lparr>triggered := \<not> h t\<rparr>)"
      using True by (simp add: fireTrigger_same)
    from Cons.IH[of "fireTrigger h a ts" "t\<lparr>triggered := \<not> h t\<rparr>", OF this] show ?thesis by simp
  next
    case False
    with Cons.prems have "fireTrigger h a ts k = Some t" by (simp add: fireTrigger_other)
    from Cons.IH[of "fireTrigger h a ts" t, OF this] show ?thesis by simp
  qed
qed

lemma fold_fire_in:
  "k \<in> set ks \<Longrightarrow> ts k = Some t \<Longrightarrow>
     \<exists>t'. payload t' = payload t \<and> (distinct ks \<longrightarrow> t' = t)
          \<and> fold (fireTrigger h) ks ts k = Some (t'\<lparr>triggered := \<not> h t'\<rparr>)"
proof (induction ks rule: rev_induct)
  case Nil
  then show ?case by simp
next
  case (snoc a ks)
  show ?case
  proof (cases "a = k")
    case True
    from fold_fire_payload[where ts = ts and k = k and t = t and h = h and ks = ks, OF snoc.prems(2)]
    obtain t' where t': "fold (fireTrigger h) ks ts k = Some t'" "payload t' = payload t" by blast
    have "distinct (ks @ [a]) \<longrightarrow> t' = t"
    proof
      assume "distinct (ks @ [a])"
      with True have "k \<notin> set ks" by simp
      then have "fold (fireTrigger h) ks ts k = ts k" by (rule fold_fire_notin)
      with t' snoc.prems(2) show "t' = t" by simp
    qed
    with t' True show ?thesis by (auto simp: fireTrigger_same)
  next
    case False
    with snoc.prems have "k \<in> set ks" by simp
    from snoc.IH[OF this snoc.prems(2)] False show ?thesis
      by (auto simp: fireTrigger_other)
  qed
qed

lemma masterBoxTriggers_set:
  "set (masterBoxTriggers m r) =
     {k \<in> {j' * numCols m + i' | i' j'.
              fst (getTileIndexFromPixel m (obj_x (heap m r) + box_x (obj_hitBox (heap m r)))
                                           (obj_y (heap m r) + box_y (obj_hitBox (heap m r)))) \<le> i'
            \<and> i' \<le> fst (getTileIndexFromPixel m (obj_x (heap m r) + box_x2 (obj_hitBox (heap m r)))
                                           (obj_y (heap m r) + box_y (obj_hitBox (heap m r))))
            \<and> snd (getTileIndexFromPixel m (obj_x (heap m r) + box_x (obj_hitBox (heap m r)))
                                           (obj_y (heap m r) + box_y (obj_hitBox (heap m r)))) \<le> j'
            \<and> j' \<le> snd (getTileIndexFromPixel m (obj_x (heap m r) + box_x (obj_hitBox (heap m r)))
                                           (obj_y (heap m r) + box_y2 (obj_hitBox (heap m r))))}.
      unfired m k}"
  unfolding masterBoxTriggers_def getTriggersForBox_def Let_def triggers_cols_set
  by auto

lemma dispatchTriggers_same_box:
  "heap (dispatchTriggers h r m) = heap m" "numCols (dispatchTriggers h r m) = numCols m"
  "getTileIndexFromPixel (dispatchTriggers h r m) x y = getTileIndexFromPixel m x y"
  by (simp_all add: dispatchTriggers_def getTileIndexFromPixel_def)

lemma worldWithMaster_fields:
  "masterObject worldWithMaster = Some 0"
  "tileWidth worldWithMaster = 10" "tileHeight worldWithMaster = 10" "numCols worldWithMaster = 30"
  "triggers worldWithMaster = opt_triggers world_options"
  "heap worldWithMaster 0 = masterSprite\<lparr>obj_layer := 0, obj_x := 0, obj_y := 0\<rparr>"
  by (simp_all add: worldWithMaster_def addObject_def setMasterObject_def masterSprite_def
        defaultObject_def world_fields Let_def)

lemma worldWithMaster_keys: "masterBoxTriggers worldWithMaster 0 = [31, 32]"
  by (simp add: masterBoxTriggers_def getTriggersForBox_def getTileIndexFromPixel_def
        worldWithMaster_fields masterSprite_def defaultObject_def world_options_def
        divToInt32_def toInt32_def Let_def
        getTriggersForBox_rows.simps getTriggersForBox_cols.simps)














lemma startIndex_cong:
  "viewportY m' = viewportY m \<Longrightarrow> viewportH m' = viewportH m \<Longrightarrow> maxWinX m' = maxWinX m
   \<Longrightarrow> startIndex m' = startIndex m"
  by (simp add: startIndex_def)





lemma grid4x4_construct: "construct grid4x4_options = Inr grid4x4"
  by (simp add: grid4x4_def construct_def setBuffer_def grid4x4_options_def orDefault_def divToInt32_def toInt32_def Let_def)

lemma grid4x4_fields:
  "tileWidth grid4x4 = 10" "tileHeight grid4x4 = 10" "numCols grid4x4 = 4" "numRows grid4x4 = 4"
  "buffer grid4x4 = [0, 0, 0, 0,  0, 0, 0, 0,  0, 0, 0, 0,  0, 0, 0, 0,
                    1, 1, 1, 1,  1, 1, 2, 1,  1, 1, 1, 1,  1, 1, 1, 1]"
  "tileBehaviors grid4x4 = \<lparr>byteOffset = 16, view_length = 16\<rparr>"
  by (simp_all add: grid4x4_def construct_def setBuffer_def grid4x4_options_def orDefault_def divToInt32_def toInt32_def Let_def)

lemma grid4x4_wall:
  "getTileBehaviorAtIndex grid4x4 2 1 = Some 2" "getTileBehaviorAtIndex grid4x4 1 1 = Some 1"
  by (simp_all add: getTileBehaviorAtIndex_def grid4x4_fields view_get_def)

lemma grid4x4_rows_free: "setNextX_rows grid4x4 2 1 1 10 20 = Some False"
  by (subst setNextX_rows.simps, simp add: grid4x4_fields view_get_def,
      subst setNextX_rows.simps, simp)

lemma grid4x4_rows_wall: "setNextX_rows grid4x4 2 2 1 10 20 = Some True"
  by (subst setNextX_rows.simps, simp add: grid4x4_fields view_get_def)

lemma setNextX_while_found:
  "setNextX_while m t left vx ymax sy True minX sx tp = Some (True, minX)"
  by (subst setNextX_while.simps) simp

lemma grid4x4_tile:
  assumes "10 \<le> sx" "sx \<le> 19"
  shows "getTileIndexFromPixel grid4x4 sx 10 = (1, 1)"
proof -
  have "divToInt32 sx 10 = sx div 10" using assms by (intro divToInt32_pos) auto
  moreover have "sx div 10 = 1" using assms by presburger
  moreover have "divToInt32 10 10 = 1" by (simp add: divToInt32_def toInt32_def)
  ultimately show ?thesis by (simp add: getTileIndexFromPixel_def grid4x4_fields)
qed

lemma grid4x4_tile20: "getTileIndexFromPixel grid4x4 20 10 = (2, 1)"
  by (simp add: getTileIndexFromPixel_def grid4x4_fields divToInt32_def toInt32_def)

lemma grid4x4_while_near:
  assumes "10 \<le> sx" "sx \<le> 19" "minX0 \<le> 25"
  shows "setNextX_while grid4x4 2 False 25 20 10 False minX0 sx (1, 1) = Some (True, 20 - sx)"
proof -
  have "setNextX_while grid4x4 2 False 25 20 10 False minX0 sx (1, 1)
        = setNextX_while grid4x4 2 False 25 20 10 False (20 - sx) 20 (2, 1)"
    using assms(3)
    by (subst setNextX_while.simps)
       (simp add: grid4x4_rows_free grid4x4_fields grid4x4_tile20 Let_def)
  also have "\<dots> = setNextX_while grid4x4 2 False 25 20 10 True (20 - sx) 20 (2, 1)"
    using assms
    by (subst setNextX_while.simps)
       (simp add: grid4x4_rows_wall grid4x4_fields grid4x4_tile20 Let_def)
  finally show ?thesis by (simp add: setNextX_while_found)
qed

lemma grid4x4_rows_free0: "setNextX_rows grid4x4 2 0 1 10 20 = Some False"
  by (subst setNextX_rows.simps, simp add: grid4x4_fields view_get_def,
      subst setNextX_rows.simps, simp)

lemma grid4x4_tile10: "getTileIndexFromPixel grid4x4 10 10 = (1, 1)"
  by (simp add: getTileIndexFromPixel_def grid4x4_fields divToInt32_def toInt32_def)

lemma grid4x4_tile1: "getTileIndexFromPixel grid4x4 1 10 = (0, 1)"
  by (simp add: getTileIndexFromPixel_def grid4x4_fields divToInt32_def toInt32_def)

lemma grid4x4_while_far:
  "setNextX_while grid4x4 2 False 25 20 10 False 0 1 (0, 1) = Some (True, 10)"
proof -
  have "setNextX_while grid4x4 2 False 25 20 10 False 0 1 (0, 1)
        = setNextX_while grid4x4 2 False 25 20 10 False 9 10 (1, 1)"
    by (subst setNextX_while.simps)
       (simp add: grid4x4_rows_free0 grid4x4_fields grid4x4_tile10 Let_def)
  also have "\<dots> = Some (True, 20 - 10)"
    by (rule grid4x4_while_near) simp_all
  finally show ?thesis by simp
qed

lemma grid4x4_while_at:
  "setNextX_while grid4x4 2 False 25 20 10 False 0 20 (2, 1) = Some (True, 0)"
proof -
  have "setNextX_while grid4x4 2 False 25 20 10 False 0 20 (2, 1)
        = setNextX_while grid4x4 2 False 25 20 10 True 0 20 (2, 1)"
    by (subst setNextX_while.simps)
       (simp add: grid4x4_rows_wall grid4x4_fields grid4x4_tile20 Let_def)
  then show ?thesis by (simp add: setNextX_while_found)
qed

lemma checkMasterPosition_master:
  "masterObject (checkMasterPosition now m) = masterObject m"
  by (simp add: checkMasterPosition_def moveTo_def Let_def split: option.splits)

lemma update_idle_dispatch:
  assumes "\<not> moving m" "masterObject m = Some r"
  shows "checkForTriggers h (checkMasterPosition now m)
           = Inr (dispatchTriggers h r (checkMasterPosition now m))"
  using assms by (simp add: checkForTriggers_def checkMasterPosition_master)

section \<open>Claims\<close>

subsection \<open>C1: the swept movement scenario\<close>

text \<open>
  C1 (as amended).  On the 4 by 4 grid of 10 pixel tiles with the wall code at
  (col 2, row 1), for the entity at (0, 10) with \<open>vx = 25\<close> and a hit box 10 high whose
  right edge \<open>x2\<close> lies between 9 and 19, \<open>setNextX\<close> returns true (a collision) and
  sets the entity's \<open>x\<close> to \<open>19 - x2\<close>: the pixel just right of the hit box,
  \<open>x + x2 + 1\<close>, is then pixel 20, the left edge of the wall.  The resolved \<open>x\<close> is
  9 for a box 10 wide; it is neither 20 nor 25.
\<close>

theorem setNextX_stops_flush:
  assumes "9 \<le> x2" "x2 \<le> 19"
  shows "setNextX grid4x4 (entity x2) 2 = Some (True, (entity x2)\<lparr>obj_x := 19 - x2\<rparr>)
       \<and> getTileBehaviorAtIndex grid4x4 2 1 = Some 2
       \<and> (19 - x2) + x2 + 1 = 2 * tileWidth grid4x4"
proof -
  have w: "setNextX_while grid4x4 2 False 25 20 10 False 0 (x2 + 1)
             (getTileIndexFromPixel grid4x4 (x2 + 1) 10) = Some (True, 19 - x2)"
  proof (cases "x2 = 19")
    case True
    then show ?thesis by (simp add: grid4x4_tile20 grid4x4_while_at)
  next
    case False
    with assms have r: "10 \<le> x2 + 1" "x2 + 1 \<le> 19" by auto
    from grid4x4_while_near[OF r, of 0] grid4x4_tile[OF r] show ?thesis by simp
  qed
  have "setNextX grid4x4 (entity x2) 2 = Some (True, (entity x2)\<lparr>obj_x := 19 - x2\<rparr>)"
    using assms by (simp add: setNextX_def entity_def defaultObject_def Let_def w)
  then show ?thesis by (simp add: grid4x4_wall grid4x4_fields)
qed

theorem setNextX_stops_flush_witness:
  "setNextX grid4x4 (entity 9) 2 = Some (True, (entity 9)\<lparr>obj_x := 10\<rparr>)"
proof -
  have h: "(9::int) \<le> 9" "(9::int) \<le> 19" by simp_all
  from setNextX_stops_flush[OF h] show ?thesis by simp
qed

theorem setNextX_not_20_counterexample:
  "setNextX grid4x4 (entity 10) 2 = Some (True, (entity 10)\<lparr>obj_x := 9\<rparr>)
   \<and> setNextX grid4x4 (entity 0) 2 = Some (True, (entity 0)\<lparr>obj_x := 10\<rparr>)"
proof -
  have "setNextX_while grid4x4 2 False 25 20 10 False 0 11
             (getTileIndexFromPixel grid4x4 11 10) = Some (True, 9)"
    using grid4x4_while_near[of 11 0] grid4x4_tile[of 11] by simp
  then have a: "setNextX grid4x4 (entity 10) 2 = Some (True, (entity 10)\<lparr>obj_x := 9\<rparr>)"
    by (simp add: setNextX_def entity_def defaultObject_def Let_def)
  have b: "setNextX grid4x4 (entity 0) 2 = Some (True, (entity 0)\<lparr>obj_x := 10\<rparr>)"
    by (simp add: setNextX_def entity_def defaultObject_def Let_def grid4x4_tile1 grid4x4_while_far)
  from a b show ?thesis by simp
qed

subsection \<open>C2: scan order of \<open>hitObjectTest\<close>\<close>

text \<open>
  C2 (as amended).  For a rectangle with non-negative 32-bit corners on a map with
  positive tile sizes, \<open>hitObjectTest\<close> scans exactly the cells that meet the rectangle.
  It returns no match iff none of them carries the code; otherwise it returns a cell of
  the rectangle carrying the code, with its pixel origin, and that cell is the first one
  in column-major order: every other matching cell lies in a column further right, or
  in the same column further down.  The order is left-to-right first, then
  top-to-bottom, not rows before columns.
\<close>

theorem hitObjectTest_column_major:
  assumes "0 < tileWidth m" "0 < tileHeight m"
    and "0 \<le> x" "x \<le> x2" "0 \<le> y" "y \<le> y2" "x2 < 2 ^ 31" "y2 < 2 ^ 31"
  shows "(hitObjectTest m x y x2 y2 code = None \<longleftrightarrow>
            (\<forall>i j. cellInRect m x y x2 y2 i j \<longrightarrow> getTileBehaviorAtIndex m i j \<noteq> Some code))
       \<and> (\<forall>h. hitObjectTest m x y x2 y2 code = Some h \<longrightarrow>
            cellInRect m x y x2 y2 (hit_x h) (hit_y h)
            \<and> getTileBehaviorAtIndex m (hit_x h) (hit_y h) = Some code
            \<and> hit_tile_x h = hit_x h * tileWidth m \<and> hit_tile_y h = hit_y h * tileHeight m
            \<and> (\<forall>i j. cellInRect m x y x2 y2 i j \<and> getTileBehaviorAtIndex m i j = Some code
                  \<longrightarrow> hit_x h < i \<or> (hit_x h = i \<and> hit_y h \<le> j)))"
proof -
  have c1: "divToInt32 x (tileWidth m) = x div tileWidth m"
    and c2: "divToInt32 x2 (tileWidth m) = x2 div tileWidth m"
    and r1: "divToInt32 y (tileHeight m) = y div tileHeight m"
    and r2: "divToInt32 y2 (tileHeight m) = y2 div tileHeight m"
    using assms by (auto intro!: divToInt32_pos)
  have eq: "hitObjectTest m x y x2 y2 code =
      hitObjectTest_cols m code (x div tileWidth m) (x2 div tileWidth m)
        (y div tileHeight m) (y2 div tileHeight m)"
    by (simp add: hitObjectTest_def getTileIndexFromPixel_def c1 c2 r1 r2)
  show ?thesis
  proof (intro conjI allI impI)
    show "hitObjectTest m x y x2 y2 code = None \<longleftrightarrow>
            (\<forall>i j. cellInRect m x y x2 y2 i j \<longrightarrow> getTileBehaviorAtIndex m i j \<noteq> Some code)"
      unfolding eq cols_None cellInRect_def by blast
  next
    fix h assume "hitObjectTest m x y x2 y2 code = Some h"
    then have s: "hitObjectTest_cols m code (x div tileWidth m) (x2 div tileWidth m)
        (y div tileHeight m) (y2 div tileHeight m) = Some h" by (simp add: eq)
    note cs = cols_Some[OF s]
    from cs show "cellInRect m x y x2 y2 (hit_x h) (hit_y h)" by (simp add: cellInRect_def)
    from cs show "getTileBehaviorAtIndex m (hit_x h) (hit_y h) = Some code" by simp
    from cs show "hit_tile_x h = hit_x h * tileWidth m" by simp
    from cs show "hit_tile_y h = hit_y h * tileHeight m" by simp
    fix i j assume "cellInRect m x y x2 y2 i j \<and> getTileBehaviorAtIndex m i j = Some code"
    with cs show "hit_x h < i \<or> (hit_x h = i \<and> hit_y h \<le> j)"
      unfolding cellInRect_def by blast
  qed
qed

theorem hitObjectTest_column_major_witness:
  "hitObjectTest grid2x2 0 0 19 19 2 = Some \<lparr>hit_x = 0, hit_y = 1, hit_tile_x = 0, hit_tile_y = 10\<rparr>
   \<and> cellInRect grid2x2 0 0 19 19 0 1 \<and> getTileBehaviorAtIndex grid2x2 0 1 = Some 2"
proof -
  have h: "0 < tileWidth grid2x2" "0 < tileHeight grid2x2" "(0::int) \<le> 0" "(0::int) \<le> 19"
       "(0::int) \<le> 0" "(0::int) \<le> 19" "(19::int) < 2 ^ 31" "(19::int) < 2 ^ 31"
    by (simp_all add: grid2x2_fields)
  from hitObjectTest_column_major[OF h, of 2, THEN conjunct2, rule_format, OF grid2x2_hit]
  have "cellInRect grid2x2 0 0 19 19 0 1 \<and> getTileBehaviorAtIndex grid2x2 0 1 = Some 2" by simp
  with grid2x2_hit show ?thesis by simp
qed

theorem hitObjectTest_row_major_counterexample:
  "hitObjectTest grid2x2 0 0 19 19 2
     = Some \<lparr>hit_x = 0, hit_y = 1, hit_tile_x = 0, hit_tile_y = 10\<rparr>
   \<and> hitObjectTest_rowMajor grid2x2 0 0 19 19 2
     = Some \<lparr>hit_x = 1, hit_y = 0, hit_tile_x = 10, hit_tile_y = 0\<rparr>"
proof -
  have "hitObjectTest_rowMajor grid2x2 0 0 19 19 2
          = Some \<lparr>hit_x = 1, hit_y = 0, hit_tile_x = 10, hit_tile_y = 0\<rparr>"
    by (simp add: hitObjectTest_rowMajor_def getTileBehaviorAtIndex_def grid2x2_fields view_get_def upto.simps)
  with grid2x2_hit show ?thesis by simp
qed

subsection \<open>C3: \<open>moveTo\<close> with a target right of the origin\<close>

text \<open>
  C3 (defect of the code).  The claim wants both bounds applied to the target before the
  comparison with the current position, so that a request with \<open>x > 0\<close> at
  \<open>viewportX = 0\<close> starts no scroll.  \<open>moveTo\<close> applies the lower bound before the
  comparison and the upper bound after it, to the stored target only: on the example
  world, idle at offset 0, \<open>moveTo(50, 0)\<close> starts a scroll whose stored target is 0
  but whose speed is 50, and half way through the scroll the viewport stands at 25.
\<close>

theorem moveTo_positive_target_scrolls:
  "viewportX world = 0 \<and> \<not> moving world
   \<and> moving (moveTo 0 50 0 world)
   \<and> viewportTargetX (moveTo 0 50 0 world) = 0
   \<and> viewportSpeedX (moveTo 0 50 0 world) = 50
   \<and> viewportX (update (\<lambda>t. False) (\<lambda>ts d. d) 0 400 (moveTo 0 50 0 world)) = 25"
  by (simp add: moveTo_def update_def movePlatforms_def moveObjects_def world_fields Let_def
        toInt32_def truncReal_def linear_def)

theorem moveTo_positive_target_scrolls_witness:
  "moving (moveTo 0 50 0 world) \<and> viewportSpeedX (moveTo 0 50 0 world) = 50"
  using moveTo_positive_target_scrolls by blast

subsection \<open>C4: the viewport stays in the clamped region\<close>

text \<open>
  C4 (as amended).  On a map at least as large as its viewport (\<open>xMax\<close>, \<open>yMax\<close> not
  negative), starting idle with the viewport in \<open>[-xMax, 0] \<times> [-yMax, 0]\<close>, after any
  sequence of \<open>moveTo\<close>, \<open>update\<close> and \<open>checkMasterPosition\<close> calls the viewport is in
  that region whenever the controller is idle.  \<open>setViewPort\<close>, \<open>reset\<close> and the
  constructor store the offsets they are given; the position during an in-flight scroll
  is not covered.
\<close>

theorem viewport_in_range_when_idle:
  assumes "0 \<le> xMax m" "0 \<le> yMax m" "\<not> moving m" "viewportInRange m"
    and "\<not> moving (fold (applyCall handleEvent objUpdate) calls m)"
  shows "viewportInRange (fold (applyCall handleEvent objUpdate) calls m)"
proof -
  from assms have "scrollInv m" by (simp add: scrollInv_def)
  then have "scrollInv (fold (applyCall handleEvent objUpdate) calls m)"
    by (rule fold_applyCall_inv)
  with assms(5) show ?thesis by (simp add: scrollInv_def)
qed

theorem viewport_in_range_when_idle_witness:
  "viewportInRange (fold (applyCall (\<lambda>t. False) (\<lambda>ts d. d))
      [MoveTo 0 (-500) 0, Update 0 400, CheckMasterPosition 0, Update 0 900] world)"
proof (rule viewport_in_range_when_idle)
  show "0 \<le> xMax world" "0 \<le> yMax world" "\<not> moving world" "viewportInRange world"
    by (simp_all add: world_fields viewportInRange_def)
  show "\<not> moving (fold (applyCall (\<lambda>t. False) (\<lambda>ts d. d))
      [MoveTo 0 (-500) 0, Update 0 400, CheckMasterPosition 0, Update 0 900] world)"
    by (simp add: moveTo_def update_def checkMasterPosition_def movePlatforms_def moveObjects_def
          world_fields Let_def)
qed

theorem setViewPort_unclamped_counterexample:
  "xMax world = 200 \<and> viewportX (setViewPort 5 0 100 100 world) = 5"
  by (simp add: setViewPort_def world_fields)

subsection \<open>C5: scroll convergence\<close>

text \<open>
  C5.  For every easing function (the field \<open>easing\<close> of an arbitrary map) and every
  \<open>moveTo\<close> target accepted by an idle controller: after any updates whose elapsed time
  is below the duration, the first update whose elapsed time reaches the duration leaves
  the controller idle with the viewport exactly at the clamped target
  \<open>min 0 (max (-xMax) x)\<close>, \<open>min 0 (max (-yMax) y)\<close>; in particular a request with
  \<open>x < -xMax\<close> ends at \<open>-xMax\<close> (on a map at least as wide as its viewport).
\<close>

theorem scroll_converges:
  assumes idle: "\<not> moving m"
    and accepted: "viewportX m \<noteq> max x (- xMax m) \<or> viewportY m \<noteq> max y (- yMax m)"
    and early: "\<forall>p \<in> set early. snd p - now < duration m"
    and late: "duration m \<le> timestamp - now"
  shows "\<not> moving (update handleEvent objUpdate clock timestamp
                     (fold (\<lambda>p. update handleEvent objUpdate (fst p) (snd p)) early (moveTo now x y m)))
       \<and> viewportX (update handleEvent objUpdate clock timestamp
                     (fold (\<lambda>p. update handleEvent objUpdate (fst p) (snd p)) early (moveTo now x y m)))
           = min 0 (max (- xMax m) x)
       \<and> viewportY (update handleEvent objUpdate clock timestamp
                     (fold (\<lambda>p. update handleEvent objUpdate (fst p) (snd p)) early (moveTo now x y m)))
           = min 0 (max (- yMax m) y)
       \<and> (0 \<le> xMax m \<and> x < - xMax m \<longrightarrow>
            viewportX (update handleEvent objUpdate clock timestamp
                     (fold (\<lambda>p. update handleEvent objUpdate (fst p) (snd p)) early (moveTo now x y m)))
              = - xMax m)"
proof -
  let ?m1 = "fold (\<lambda>p. update handleEvent objUpdate (fst p) (snd p)) early (moveTo now x y m)"
  from moveTo_accepted[OF idle accepted]
  have "scrollPending ?m1 now (duration m) (min 0 (max (- xMax m) x)) (min 0 (max (- yMax m) y))"
    using early by (rule update_early_fold)
  from update_late[OF this late, of handleEvent objUpdate clock]
  show ?thesis by auto
qed

theorem scroll_converges_witness:
  "\<not> moving (update (\<lambda>t. False) (\<lambda>ts d. d) 0 900
       (fold (\<lambda>p. update (\<lambda>t. False) (\<lambda>ts d. d) (fst p) (snd p)) [(0, 100), (0, 400)]
          (moveTo 0 (-500) (-30) world)))
   \<and> viewportX (update (\<lambda>t. False) (\<lambda>ts d. d) 0 900
       (fold (\<lambda>p. update (\<lambda>t. False) (\<lambda>ts d. d) (fst p) (snd p)) [(0, 100), (0, 400)]
          (moveTo 0 (-500) (-30) world))) = - 200
   \<and> viewportY (update (\<lambda>t. False) (\<lambda>ts d. d) 0 900
       (fold (\<lambda>p. update (\<lambda>t. False) (\<lambda>ts d. d) (fst p) (snd p)) [(0, 100), (0, 400)]
          (moveTo 0 (-500) (-30) world))) = - 30"
proof -
  have h: "\<not> moving world"
    "viewportX world \<noteq> max (-500) (- xMax world) \<or> viewportY world \<noteq> max (-30) (- yMax world)"
    "\<forall>p \<in> set [(0, 100), (0, 400)]. snd p - 0 < duration world"
    "duration world \<le> 900 - 0"
    by (simp_all add: world_fields)
  from scroll_converges[OF h, of "\<lambda>t. False" "\<lambda>ts d. d" 0]
  show ?thesis by (simp add: world_fields)
qed

subsection \<open>C6: \<open>updateTile\<close> writes one cell\<close>

text \<open>
  C6 (as amended).  On a map whose planes have the prescribed shape, for every valid
  cell \<open>(col, row)\<close> and every behavior value \<open>B\<close> with \<open>-1 < B \<le> 255\<close>, after
  \<open>updateTile(col, row, _, B)\<close> the behavior read back at \<open>(col, row)\<close> is \<open>B\<close>, and
  every other valid cell of the visual plane and of the behavior plane reads as before.
  The planes hold bytes: a larger value is stored modulo 256.
\<close>

theorem updateTile_frame:
  assumes fit: "planesFit m" and cell: "validCell m col row" and B: "0 \<le> B" "B \<le> 255"
  shows "getTileBehaviorAtIndex (updateTile col row tileNum B m) col row = Some B
       \<and> (\<forall>c r. validCell m c r \<and> (c, r) \<noteq> (col, row) \<longrightarrow>
             getTileBehaviorAtIndex (updateTile col row tileNum B m) c r = getTileBehaviorAtIndex m c r
           \<and> getTileNumAtIndex (updateTile col row tileNum B m) c r = getTileNumAtIndex m c r)"
proof -
  define n where "n = nat (numCols m * numRows m)"
  define p where "p = nat (row * numCols m + col)"
  from cell_index_bound[OF cell] have pos: "row * numCols m + col = int p" "p < n"
    by (auto simp: p_def n_def)
  from fit have mp: "map_plane m = \<lparr>byteOffset = 0, view_length = n\<rparr>"
    and tb: "tileBehaviors m = \<lparr>byteOffset = n, view_length = n\<rparr>"
    and len: "length (buffer m) = 2 * n"
    by (auto simp: planesFit_def n_def)
  define b1 where "b1 = (if tileNum > -1 then (buffer m)[p := word_of_int tileNum] else buffer m)"
  define b2 where "b2 = b1[n + p := word_of_int B]"
  have len1: "length b1 = 2 * n" by (simp add: b1_def len)
  have upd: "updateTile col row tileNum B m = (if tileNum > -1 then m\<lparr>buffer := b2, isDirty := True\<rparr> else m\<lparr>isDirty := True, buffer := b2\<rparr>)"
    using B pos by (auto simp: updateTile_def Let_def view_set_def mp tb len b1_def b2_def)
  have flds: "buffer (updateTile col row tileNum B m) = b2"
    "tileBehaviors (updateTile col row tileNum B m) = tileBehaviors m"
    "map_plane (updateTile col row tileNum B m) = map_plane m"
    "numCols (updateTile col row tileNum B m) = numCols m"
    by (simp_all add: upd)
  have same: "getTileBehaviorAtIndex (updateTile col row tileNum B m) col row = Some B"
    using pos len1 B
    by (simp add: beh_index flds tb view_get_def b2_def uint_byte)
  have other: "getTileBehaviorAtIndex (updateTile col row tileNum B m) c r = getTileBehaviorAtIndex m c r
           \<and> getTileNumAtIndex (updateTile col row tileNum B m) c r = getTileNumAtIndex m c r"
    if v: "validCell m c r" and ne: "(c, r) \<noteq> (col, row)" for c r
  proof -
    define q where "q = nat (r * numCols m + c)"
    from cell_index_bound[OF v] have q: "r * numCols m + c = int q" "q < n"
      by (auto simp: q_def n_def)
    have "q \<noteq> p"
    proof
      assume "q = p"
      with q pos have "r * numCols m + c = row * numCols m + col" by simp
      from cell_index_inj[OF v cell this] ne show False by simp
    qed
    then have "b2 ! (n + q) = buffer m ! (n + q)" "b2 ! q = buffer m ! q"
      using q pos by (auto simp: b2_def b1_def)
    then show ?thesis
      using q len len1
      by (simp add: beh_index getTileNumAtIndex_def mult.commute[of "numCols m"] add.commute[of _ c]
            flds tb mp view_get_def b2_def)
  qed
  from same other show ?thesis by blast
qed

theorem updateTile_frame_witness:
  "getTileBehaviorAtIndex (updateTile 1 1 (-1) 3 grid2x2) 1 1 = Some 3
   \<and> getTileBehaviorAtIndex (updateTile 1 1 (-1) 3 grid2x2) 0 1 = Some 2
   \<and> getTileNumAtIndex (updateTile 1 1 (-1) 3 grid2x2) 1 0 = Some 0"
proof -
  have v: "validCell grid2x2 1 1" "validCell grid2x2 0 1" "validCell grid2x2 1 0"
    by (simp_all add: validCell_def grid2x2_fields)
  have b: "(0::int) \<le> 3" "(3::int) \<le> 255" by simp_all
  note T = updateTile_frame[OF grid2x2_planesFit v(1) b, of "-1"]
  have old: "getTileBehaviorAtIndex grid2x2 0 1 = Some 2" "getTileNumAtIndex grid2x2 1 0 = Some 0"
    by (simp_all add: beh_index getTileNumAtIndex_def grid2x2_fields view_get_def)
  from T have "getTileBehaviorAtIndex (updateTile 1 1 (-1) 3 grid2x2) 1 1 = Some 3" by (rule conjunct1)
  moreover from T v(2) have "getTileBehaviorAtIndex (updateTile 1 1 (-1) 3 grid2x2) 0 1 = getTileBehaviorAtIndex grid2x2 0 1"
    by simp
  moreover from T v(3) have "getTileNumAtIndex (updateTile 1 1 (-1) 3 grid2x2) 1 0 = getTileNumAtIndex grid2x2 1 0"
    by simp
  ultimately show ?thesis using old by simp
qed

theorem updateTile_wraps_counterexample:
  "validCell grid2x2 0 0
   \<and> getTileBehaviorAtIndex (updateTile 0 0 (-1) 256 grid2x2) 0 0 = Some 0"
  by (simp add: validCell_def updateTile_def getTileBehaviorAtIndex_def grid2x2_fields view_get_def view_set_def)

subsection \<open>C7: polarity of the trigger handler's result\<close>

text \<open>
  C7.  With a master object, \<open>checkForTriggers\<close> dispatches exactly the unfired triggers
  under the master's hit box, and every dispatched trigger ends with its fired flag set
  to the negation of the handler's result on it: a false result marks it fired, a true
  result leaves it unfired, and then it is collected again by the next
  \<open>getTriggersForBox\<close> over the same box.  The handler sees the trigger as it stands
  when dispatched (the trigger itself when each is dispatched once); triggers that are
  not dispatched keep their state.
\<close>

theorem checkForTriggers_fired_flag:
  assumes master: "masterObject m = Some r"
  shows "checkForTriggers handleEvent m = Inr (dispatchTriggers handleEvent r m)
       \<and> (\<forall>k \<in> set (masterBoxTriggers m r). \<exists>t t'.
             triggers m k = Some t \<and> \<not> triggered t \<and> payload t' = payload t
           \<and> (distinct (masterBoxTriggers m r) \<longrightarrow> t' = t)
           \<and> triggers (dispatchTriggers handleEvent r m) k = Some (t'\<lparr>triggered := \<not> handleEvent t'\<rparr>)
           \<and> (k \<in> set (masterBoxTriggers (dispatchTriggers handleEvent r m) r) \<longleftrightarrow> handleEvent t'))
       \<and> (\<forall>k. k \<notin> set (masterBoxTriggers m r) \<longrightarrow>
             triggers (dispatchTriggers handleEvent r m) k = triggers m k)"
proof (intro conjI ballI allI impI)
  show "checkForTriggers handleEvent m = Inr (dispatchTriggers handleEvent r m)"
    using master by (simp add: checkForTriggers_def)
next
  fix k assume "k \<notin> set (masterBoxTriggers m r)"
  then show "triggers (dispatchTriggers handleEvent r m) k = triggers m k"
    by (simp add: dispatchTriggers_def fold_fire_notin)
next
  fix k assume k: "k \<in> set (masterBoxTriggers m r)"
  let ?m' = "dispatchTriggers handleEvent r m"
  from k have "unfired m k" by (auto simp: masterBoxTriggers_set)
  then obtain t where t: "triggers m k = Some t" "\<not> triggered t"
    by (auto simp: unfired_def split: option.splits)
  from fold_fire_in[where ts = "triggers m" and k = k and t = t and h = handleEvent
                      and ks = "masterBoxTriggers m r", OF k t(1)]
  obtain t' where t': "payload t' = payload t" "distinct (masterBoxTriggers m r) \<longrightarrow> t' = t"
    "triggers ?m' k = Some (t'\<lparr>triggered := \<not> handleEvent t'\<rparr>)"
    by (auto simp: dispatchTriggers_def)
  have "unfired ?m' k \<longleftrightarrow> handleEvent t'" using t'(3) by (simp add: unfired_def)
  moreover have "k \<in> set (masterBoxTriggers ?m' r) \<longleftrightarrow> unfired ?m' k"
    using k unfolding masterBoxTriggers_set dispatchTriggers_same_box by blast
  ultimately have "k \<in> set (masterBoxTriggers ?m' r) \<longleftrightarrow> handleEvent t'" by simp
  with t t' show "\<exists>t t'. triggers m k = Some t \<and> \<not> triggered t \<and> payload t' = payload t
           \<and> (distinct (masterBoxTriggers m r) \<longrightarrow> t' = t)
           \<and> triggers ?m' k = Some (t'\<lparr>triggered := \<not> handleEvent t'\<rparr>)
           \<and> (k \<in> set (masterBoxTriggers ?m' r) \<longleftrightarrow> handleEvent t')"
    by blast
qed

theorem checkForTriggers_fired_flag_witness:
  "masterBoxTriggers worldWithMaster 0 = [31, 32]
   \<and> triggers (dispatchTriggers exampleHandler 0 worldWithMaster) 31
       = Some \<lparr>triggered = True, payload = ''door''\<rparr>
   \<and> triggers (dispatchTriggers exampleHandler 0 worldWithMaster) 32
       = Some \<lparr>triggered = False, payload = ''lamp''\<rparr>"
proof -
  note T = checkForTriggers_fired_flag[OF worldWithMaster_fields(1), of exampleHandler,
              THEN conjunct2, THEN conjunct1, unfolded worldWithMaster_keys]
  have d: "distinct [31, 32 :: int]" by simp
  have tr: "triggers worldWithMaster 31 = Some \<lparr>triggered = False, payload = ''door''\<rparr>"
           "triggers worldWithMaster 32 = Some \<lparr>triggered = False, payload = ''lamp''\<rparr>"
    by (simp_all add: worldWithMaster_fields world_options_def)
  from T have "\<exists>t t'. triggers worldWithMaster 31 = Some t \<and> \<not> triggered t \<and> payload t' = payload t
       \<and> (distinct [31, 32 :: int] \<longrightarrow> t' = t)
       \<and> triggers (dispatchTriggers exampleHandler 0 worldWithMaster) 31
            = Some (t'\<lparr>triggered := \<not> exampleHandler t'\<rparr>)
       \<and> (31 \<in> set (masterBoxTriggers (dispatchTriggers exampleHandler 0 worldWithMaster) 0)
            \<longleftrightarrow> exampleHandler t')"
    by simp
  with d tr(1) have a: "triggers (dispatchTriggers exampleHandler 0 worldWithMaster) 31
       = Some \<lparr>triggered = True, payload = ''door''\<rparr>"
    by (auto simp: exampleHandler_def)
  from T have "\<exists>t t'. triggers worldWithMaster 32 = Some t \<and> \<not> triggered t \<and> payload t' = payload t
       \<and> (distinct [31, 32 :: int] \<longrightarrow> t' = t)
       \<and> triggers (dispatchTriggers exampleHandler 0 worldWithMaster) 32
            = Some (t'\<lparr>triggered := \<not> exampleHandler t'\<rparr>)
       \<and> (32 \<in> set (masterBoxTriggers (dispatchTriggers exampleHandler 0 worldWithMaster) 0)
            \<longleftrightarrow> exampleHandler t')"
    by simp
  with d tr(2) have b: "triggers (dispatchTriggers exampleHandler 0 worldWithMaster) 32
       = Some \<lparr>triggered = False, payload = ''lamp''\<rparr>"
    by (auto simp: exampleHandler_def)
  from a b worldWithMaster_keys show ?thesis by simp
qed

subsection \<open>C8: a window is populated once\<close>



subsection \<open>C9: \<open>removeObject\<close> and the collision groups\<close>

text \<open>
  C9 (defect of the code).  The claim wants a removed object gone from the object list
  and from its collision group.  \<open>removeObject\<close> searches the enemies and the friendly
  projectiles only: an object added with the platform tag (3) leaves the object list but
  stays in the platform group.
\<close>

theorem removeObject_misses_platforms:
  "objects (removeObject 7 (addObject 7 0 (world\<lparr>heap := (heap world)(7 := platformObject)\<rparr>))) = []
   \<and> platforms (removeObject 7 (addObject 7 0 (world\<lparr>heap := (heap world)(7 := platformObject)\<rparr>))) = [7]"
  by (simp add: removeObject_def addObject_def setMasterObject_def platformObject_def defaultObject_def
        splice1_def world_fields Let_def)

theorem removeObject_misses_platforms_witness:
  "platforms (removeObject 7 (addObject 7 0 (world\<lparr>heap := (heap world)(7 := platformObject)\<rparr>))) = [7]"
  using removeObject_misses_platforms by blast

subsection \<open>C10: queries outside the map\<close>

text \<open>
  C10 (as amended).  On a map whose planes have the prescribed shape and whose tile sizes
  are positive, for 32-bit pixel coordinates: a query at or below the bottom edge
  (\<open>y \<ge> numRows * tileHeight\<close>, with \<open>x \<ge> 0\<close>) and a query at least one tile above the
  top edge (\<open>y2 \<le> -tileHeight\<close>, with \<open>x2\<close> left of the right edge) compute a cell index
  outside the behavior plane, the lookup is undefined, and so \<open>fallTest\<close> returns false
  and \<open>hitObjectTest\<close> returns the no-match value.  Nothing is said of a pixel beside the
  map: its index can fall on a cell of a neighbouring row.
\<close>

theorem outside_plane_no_hit:
  assumes fit: "planesFit m" and tw: "0 < tileWidth m" and th: "0 < tileHeight m"
    and rect: "x \<le> x2" "y \<le> y2"
    and bits: "\<bar>x\<bar> < 2 ^ 31" "\<bar>y\<bar> < 2 ^ 31" "\<bar>x2\<bar> < 2 ^ 31" "\<bar>y2\<bar> < 2 ^ 31"
    and region: "(0 \<le> x \<and> numRows m * tileHeight m \<le> y)
               \<or> (x2 < numCols m * tileWidth m \<and> y2 \<le> - tileHeight m)"
  shows "\<not> fallTest wall m x y \<and> hitObjectTest m x y x2 y2 code = None"
proof -
  let ?c1 = "divToInt32 x (tileWidth m)" and ?c2 = "divToInt32 x2 (tileWidth m)"
  let ?r1 = "divToInt32 y (tileHeight m)" and ?r2 = "divToInt32 y2 (tileHeight m)"
  from fit have nn: "0 \<le> numCols m" "0 \<le> numRows m" by (auto simp: planesFit_def)
  have out: "view_get (buffer m) (tileBehaviors m) (j * numCols m + i) = None"
    if "?c1 \<le> i" "i \<le> ?c2" "?r1 \<le> j" "j \<le> ?r2" for i j
  proof (cases "numCols m = 0")
    case True
    with fit show ?thesis by (auto simp: planesFit_def view_get_def)
  next
    case False
    with nn have pos: "0 < numCols m" by simp
    from region show ?thesis
    proof
      assume below: "0 \<le> x \<and> numRows m * tileHeight m \<le> y"
      then have "?c1 = x div tileWidth m" using tw bits by (intro divToInt32_pos) auto
      moreover have "0 \<le> x div tileWidth m" using below tw by (simp add: pos_imp_zdiv_nonneg_iff)
      ultimately have i0: "0 \<le> i" using that(1) by linarith
      have y0: "0 \<le> y" using below th nn
        by (meson mult_nonneg_nonneg order_less_imp_le order_trans)
      then have "?r1 = y div tileHeight m" using th bits by (intro divToInt32_pos) auto
      moreover have "numRows m \<le> y div tileHeight m" using below th by (intro div_ge_rows) auto
      ultimately have "numRows m \<le> j" using that(3) by simp
      then have "numRows m * numCols m \<le> j * numCols m" using nn by (intro mult_right_mono) auto
      with i0 have "numCols m * numRows m \<le> j * numCols m + i" by (simp add: mult.commute)
      with fit show ?thesis by (intro view_get_outside) auto
    next
      assume above: "x2 < numCols m * tileWidth m \<and> y2 \<le> - tileHeight m"
      have "?c2 < numCols m" using tw above pos bits by (intro divToInt32_lt_cols) auto
      then have i1: "i + 1 \<le> numCols m" using that(2) by simp
      have "?r2 \<le> -1" using th above bits by (intro divToInt32_le_m1) auto
      then have "j \<le> -1" using that(4) by simp
      then have "j * numCols m \<le> (-1) * numCols m" using nn by (intro mult_right_mono) auto
      with i1 have "j * numCols m + i < 0" by simp
      with fit show ?thesis by (intro view_get_outside) auto
    qed
  qed
  have mono: "?c1 \<le> ?c1" "?r1 \<le> ?r1" by simp_all
  have ft: "\<not> fallTest wall m x y"
  proof -
    have "view_get (buffer m) (tileBehaviors m) (?r1 * numCols m + ?c1) = None"
    proof (cases "numCols m = 0")
      case True
      with fit show ?thesis by (auto simp: planesFit_def view_get_def)
    next
      case False
      with nn have pos: "0 < numCols m" by simp
      from region show ?thesis
      proof
        assume below: "0 \<le> x \<and> numRows m * tileHeight m \<le> y"
        then have c: "?c1 = x div tileWidth m" using tw bits by (intro divToInt32_pos) auto
        moreover have "0 \<le> x div tileWidth m" using below tw by (simp add: pos_imp_zdiv_nonneg_iff)
        ultimately have i0: "0 \<le> ?c1" by linarith
        have y0: "0 \<le> y" using below th nn
          by (meson mult_nonneg_nonneg order_less_imp_le order_trans)
        then have "?r1 = y div tileHeight m" using th bits by (intro divToInt32_pos) auto
        moreover have "numRows m \<le> y div tileHeight m" using below th by (intro div_ge_rows) auto
        ultimately have "numRows m \<le> ?r1" by simp
        then have "numRows m * numCols m \<le> ?r1 * numCols m" using nn by (intro mult_right_mono) auto
        with i0 have "numCols m * numRows m \<le> ?r1 * numCols m + ?c1" by (simp add: mult.commute)
        with fit show ?thesis by (intro view_get_outside) auto
      next
        assume above: "x2 < numCols m * tileWidth m \<and> y2 \<le> - tileHeight m"
        with rect have xy: "x < numCols m * tileWidth m" "y \<le> - tileHeight m" by auto
        have "?c1 < numCols m" using tw xy pos bits by (intro divToInt32_lt_cols) auto
        then have i1: "?c1 + 1 \<le> numCols m" by simp
        have "?r1 \<le> -1" using th xy bits by (intro divToInt32_le_m1) auto
        then have "?r1 * numCols m \<le> (-1) * numCols m" using nn by (intro mult_right_mono) auto
        with i1 have "?r1 * numCols m + ?c1 < 0" by simp
        with fit show ?thesis by (intro view_get_outside) auto
      qed
    qed
    then show ?thesis
      by (simp add: fallTest_def getTileIndexFromPixel_def Let_def add.commute)
  qed
  have "hitObjectTest m x y x2 y2 code = None"
    unfolding hitObjectTest_def getTileIndexFromPixel_def Let_def fst_conv snd_conv cols_None
    using out by (simp add: beh_index)
  with ft show ?thesis by simp
qed

theorem outside_plane_no_hit_witness:
  "\<not> fallTest 2 grid2x2 5 25 \<and> hitObjectTest grid2x2 5 25 15 30 2 = None"
proof -
  have h: "0 < tileWidth grid2x2" "0 < tileHeight grid2x2" "(5::int) \<le> 15" "(25::int) \<le> 30"
    "\<bar>5::int\<bar> < 2 ^ 31" "\<bar>25::int\<bar> < 2 ^ 31" "\<bar>15::int\<bar> < 2 ^ 31" "\<bar>30::int\<bar> < 2 ^ 31"
    "(0 \<le> (5::int) \<and> numRows grid2x2 * tileHeight grid2x2 \<le> 25)
       \<or> (15 < numCols grid2x2 * tileWidth grid2x2 \<and> 30 \<le> - tileHeight grid2x2)"
    by (simp_all add: grid2x2_fields)
  show ?thesis by (rule outside_plane_no_hit[OF grid2x2_planesFit h])
qed

theorem outside_map_hit_counterexample:
  "width grid2x2 = 20 \<and> fallTest 2 grid2x2 20 0
   \<and> hitObjectTest grid2x2 20 0 20 0 2
       = Some \<lparr>hit_x = 2, hit_y = 0, hit_tile_x = 20, hit_tile_y = 0\<rparr>"
  by (simp add: fallTest_def hitObjectTest_def getTileIndexFromPixel_def grid2x2_fields grid2x2_size
        divToInt32_def toInt32_def view_get_def hitObjectTest_rows.simps hitObjectTest_cols.simps)

end
